theory Spec2Isabelle
  imports Main "HOL-Library.Sublist"
begin

section \<open>Paths\<close>

text \<open>
  Paths are POSIX strings. \<open>path.join(dir, entry)\<close> is modelled for the way the crawler
  uses it: \<open>dir\<close> is a directory path without a trailing separator and \<open>entry\<close> is a
  name returned by \<open>readdirSync\<close>, so the join is the two parts around one separator.
\<close>

definition pathJoin :: "string \<Rightarrow> string \<Rightarrow> string" where
  "pathJoin dir entry = dir @ ''/'' @ entry"

text \<open>\<open>path.basename\<close>: the last segment, trailing separators dropped.\<close>

definition basename :: "string \<Rightarrow> string" where
  "basename p = rev (takeWhile (\<lambda>c. c \<noteq> CHR ''/'') (dropWhile (\<lambda>c. c = CHR ''/'') (rev p)))"

text \<open>
  \<open>path.extname\<close>: from the last dot of the basename to its end; empty when the basename
  has no dot, when its only dot is its first character, or when it is \<open>..\<close>.
\<close>

definition extname :: "string \<Rightarrow> string" where
  "extname p =
     (let b = basename p;
          ext = rev (takeWhile (\<lambda>c. c \<noteq> CHR ''.'') (rev b));
          pre = take (length b - length ext - 1) b
      in if CHR ''.'' \<notin> set b \<or> pre = [] \<or> b = ''..'' then [] else CHR ''.'' # ext)"

text \<open>\<open>toLowerCase\<close> on the ASCII letters (strings are byte strings here).\<close>

definition lowerChar :: "char \<Rightarrow> char" where
  "lowerChar c =
     (let n = (of_char c :: nat) in if 65 \<le> n \<and> n \<le> 90 then char_of (n + 32) else c)"

definition toLowerCase :: "string \<Rightarrow> string" where
  "toLowerCase s = map lowerChar s"

text \<open>\<open>entry.startsWith('.')\<close>\<close>

definition startsWithDot :: "string \<Rightarrow> bool" where
  "startsWithDot s = (case s of [] \<Rightarrow> False | c # _ \<Rightarrow> c = CHR ''.'')"

section \<open>Crawler: directory tree and bottom-up order\<close>

datatype Directory =
  Directory (path: string) (name: string) (subdirectories: "Directory list")
            (files: "string list") (isLeaf: bool)

record CrawlerOptions =
  respectGitignore :: bool
  includeHidden :: bool

text \<open>
  The file system as the recursive scan sees it: a finite tree. A directory lists named
  entries; \<open>FsUnreadableDir\<close> is a directory whose \<open>readdirSync\<close> throws, \<open>FsBroken\<close> an
  entry whose \<open>statSync\<close> throws.
\<close>

datatype fsnode =
    FsFile
  | FsDir "(string \<times> fsnode) list"
  | FsUnreadableDir
  | FsBroken

text \<open>
  \<open>scanDirectory\<close>. The ignore rules (\<open>GitIgnoreParser.shouldIgnore\<close>) are a parameter.
  Reading the entries of anything but a readable directory throws, and the handler returns
  the empty leaf.
\<close>

fun scanDirectory :: "CrawlerOptions \<Rightarrow> (string \<Rightarrow> bool) \<Rightarrow> string \<Rightarrow> fsnode \<Rightarrow> Directory"
  and scanEntries :: "CrawlerOptions \<Rightarrow> (string \<Rightarrow> bool) \<Rightarrow> string \<Rightarrow> (string \<times> fsnode) list
                        \<Rightarrow> Directory list \<times> string list"
where
  "scanDirectory opts shouldIgnore dirPath (FsDir entries) =
     (case scanEntries opts shouldIgnore dirPath entries of
        (subs, fs) \<Rightarrow> Directory dirPath (basename dirPath) subs fs (subs = []))"
| "scanDirectory opts shouldIgnore dirPath FsFile = Directory dirPath (basename dirPath) [] [] True"
| "scanDirectory opts shouldIgnore dirPath FsUnreadableDir =
     Directory dirPath (basename dirPath) [] [] True"
| "scanDirectory opts shouldIgnore dirPath FsBroken = Directory dirPath (basename dirPath) [] [] True"
| "scanEntries opts shouldIgnore dirPath [] = ([], [])"
| "scanEntries opts shouldIgnore dirPath ((entry, node) # rest) =
     (let entryPath = pathJoin dirPath entry in
      case scanEntries opts shouldIgnore dirPath rest of
        (subs, fs) \<Rightarrow>
          if respectGitignore opts \<and> shouldIgnore entryPath then (subs, fs)
          else if \<not> includeHidden opts \<and> startsWithDot entry then (subs, fs)
          else (case node of
                  FsBroken \<Rightarrow> (subs, fs)
                | FsFile \<Rightarrow> (subs, entryPath # fs)
                | FsDir es \<Rightarrow> (scanDirectory opts shouldIgnore entryPath node # subs, fs)
                | FsUnreadableDir \<Rightarrow> (scanDirectory opts shouldIgnore entryPath node # subs, fs)))"

definition scan :: "CrawlerOptions \<Rightarrow> (string \<Rightarrow> bool) \<Rightarrow> string \<Rightarrow> fsnode \<Rightarrow> Directory" where
  "scan opts shouldIgnore rootPath root = scanDirectory opts shouldIgnore rootPath root"

text \<open>
  \<open>createBottomUpOrder\<close>: \<open>processDir\<close> with its two mutable locals, the list \<open>allDirs\<close>
  and the set \<open>processedDirs\<close>, passed as a pair.
\<close>

fun processDir :: "Directory \<Rightarrow> string list \<times> string set \<Rightarrow> string list \<times> string set"
  and processSubdirs :: "Directory list \<Rightarrow> string list \<times> string set \<Rightarrow> string list \<times> string set"
where
  "processDir (Directory p n subs fs lf) st =
     (case processSubdirs subs st of
        (allDirs, processedDirs) \<Rightarrow>
          if p \<notin> processedDirs then (allDirs @ [p], insert p processedDirs)
          else (allDirs, processedDirs))"
| "processSubdirs [] st = st"
| "processSubdirs (subdir # rest) st =
     processSubdirs rest (if path subdir \<notin> snd st then processDir subdir st else st)"

definition bottomUpOrderOf :: "Directory \<Rightarrow> string list" where
  "bottomUpOrderOf dirTree = fst (processDir dirTree ([], {}))"

definition createBottomUpOrder ::
  "CrawlerOptions \<Rightarrow> (string \<Rightarrow> bool) \<Rightarrow> string \<Rightarrow> fsnode \<Rightarrow> string list" where
  "createBottomUpOrder opts shouldIgnore rootPath root =
     bottomUpOrderOf (scan opts shouldIgnore rootPath root)"


section \<open>File system queries\<close>

text \<open>
  The calls of Node's \<open>fs\<close> module that the crawler, the analyzer and the tools make on
  single paths. A call that throws returns \<open>Inl\<close> with the message of the error.
\<close>

record stats =
  isDirectory :: bool
  statSize :: nat

record filesystem =
  readdirSync :: "string \<Rightarrow> string + string list"
  statSync :: "string \<Rightarrow> string + stats"
  readFileSync :: "string \<Rightarrow> string + string"
  writeFails :: "string \<Rightarrow> string option"

definition existsSync :: "filesystem \<Rightarrow> string \<Rightarrow> bool" where
  "existsSync fs p = (case statSync fs p of Inl e \<Rightarrow> False | Inr st \<Rightarrow> True)"

definition dirname :: "string \<Rightarrow> string" where
  "dirname p = rev (drop 1 (dropWhile (\<lambda>c. c \<noteq> CHR ''/'') (rev p)))"

text \<open>
  \<open>fs.promises.writeFile(p, text, 'utf8')\<close>: it rejects, or afterwards the file exists
  with that text and is listed in its directory.
\<close>

definition writeFile :: "filesystem \<Rightarrow> string \<Rightarrow> string \<Rightarrow> string + filesystem" where
  "writeFile fs p text =
     (case writeFails fs p of
        Some e \<Rightarrow> Inl e
      | None \<Rightarrow>
          Inr (fs\<lparr> readFileSync := (readFileSync fs)(p := Inr text),
                    statSync := (statSync fs)(p := Inr \<lparr>isDirectory = False, statSize = length text\<rparr>),
                    readdirSync := (readdirSync fs)(dirname p :=
                      (case readdirSync fs (dirname p) of
                         Inl e \<Rightarrow> Inl e
                       | Inr names \<Rightarrow>
                           Inr (if basename p \<in> set names then names else names @ [basename p]))) \<rparr>))"

text \<open>
  \<open>path.relative(from, to)\<close>, for the calls made here: \<open>to\<close> lies under the directory
  \<open>from\<close>, and the result is what follows the separator.
\<close>

definition pathRelative :: "string \<Rightarrow> string \<Rightarrow> string" where
  "pathRelative from to =
     (if prefix (from @ ''/'') to then drop (length from + 1) to else to)"

text \<open>An array \<open>filter\<close> whose callback may throw: the first throw ends the filter.\<close>

fun filterThrowing :: "('a \<Rightarrow> string + bool) \<Rightarrow> 'a list \<Rightarrow> string + 'a list" where
  "filterThrowing p [] = Inr []"
| "filterThrowing p (x # xs) =
     (case p x of
        Inl e \<Rightarrow> Inl e
      | Inr b \<Rightarrow>
          (case filterThrowing p xs of
             Inl e \<Rightarrow> Inl e
           | Inr ys \<Rightarrow> Inr (if b then x # ys else ys)))"

section \<open>Configuration\<close>

text \<open>
  The fields of \<open>AutodocumentConfig\<close> that the crawler and the analyzer read:
  \<open>fileProcessing.codeExtensions\<close>, \<open>fileProcessing.maxFileSizeKb\<close>,
  \<open>fileProcessing.maxFilesPerDirectory\<close> and \<open>documentation.outputFilename\<close>.
  The two limits are natural numbers.
\<close>

record AutodocumentConfig =
  codeExtensions :: "string list"
  maxFileSizeKb :: nat
  maxFilesPerDirectory :: nat
  documentationOutputFilename :: string

section \<open>Crawler: queries on one directory\<close>

definition isCodeFileEntry ::
  "CrawlerOptions \<Rightarrow> (string \<Rightarrow> bool) \<Rightarrow> AutodocumentConfig \<Rightarrow> filesystem \<Rightarrow> string \<Rightarrow> string
     \<Rightarrow> string + bool" where
  "isCodeFileEntry opts shouldIgnore cfg fs directoryPath file =
     (let filePath = pathJoin directoryPath file in
      case statSync fs filePath of
        Inl e \<Rightarrow> Inl e
      | Inr st \<Rightarrow>
          Inr (if isDirectory st then False
               else if respectGitignore opts \<and> shouldIgnore filePath then False
               else if \<not> includeHidden opts \<and> startsWithDot file then False
               else toLowerCase (extname file) \<in> set (codeExtensions cfg)))"

definition getCodeFiles ::
  "CrawlerOptions \<Rightarrow> (string \<Rightarrow> bool) \<Rightarrow> AutodocumentConfig \<Rightarrow> filesystem \<Rightarrow> string
     \<Rightarrow> string list" where
  "getCodeFiles opts shouldIgnore cfg fs directoryPath =
     (case readdirSync fs directoryPath of
        Inl e \<Rightarrow> []
      | Inr entries \<Rightarrow>
          (case filterThrowing (isCodeFileEntry opts shouldIgnore cfg fs directoryPath) entries of
             Inl e \<Rightarrow> []
           | Inr allFiles \<Rightarrow> map (pathJoin directoryPath) allFiles))"

definition getDocumentationFile :: "AutodocumentConfig \<Rightarrow> filesystem \<Rightarrow> string \<Rightarrow> string option" where
  "getDocumentationFile cfg fs directoryPath =
     (let docFilePath = pathJoin directoryPath (documentationOutputFilename cfg) in
      if existsSync fs docFilePath then Some docFilePath else None)"

definition hasSubdirectories ::
  "CrawlerOptions \<Rightarrow> (string \<Rightarrow> bool) \<Rightarrow> filesystem \<Rightarrow> string \<Rightarrow> bool" where
  "hasSubdirectories opts shouldIgnore fs directoryPath =
     (case readdirSync fs directoryPath of
        Inl e \<Rightarrow> False
      | Inr entries \<Rightarrow>
          length (filter (\<lambda>filePath.
                    case statSync fs filePath of
                      Inl e \<Rightarrow> False
                    | Inr st \<Rightarrow> isDirectory st \<and>
                                (\<not> respectGitignore opts \<or> \<not> shouldIgnore filePath))
                  (map (pathJoin directoryPath) entries)) > 0)"

text \<open>
  The filter "Get immediate subdirectories" of \<open>getSingleFileSubdirectories\<close> and
  \<open>getSubdirectoryDocs\<close>; its \<open>statSync\<close> is not guarded.
\<close>

definition isSubdirectory ::
  "CrawlerOptions \<Rightarrow> (string \<Rightarrow> bool) \<Rightarrow> filesystem \<Rightarrow> string \<Rightarrow> string + bool" where
  "isSubdirectory opts shouldIgnore fs filePath =
     (case statSync fs filePath of
        Inl e \<Rightarrow> Inl e
      | Inr st \<Rightarrow> Inr (isDirectory st \<and> (\<not> respectGitignore opts \<or> \<not> shouldIgnore filePath)))"

definition readFileContent :: "AutodocumentConfig \<Rightarrow> filesystem \<Rightarrow> string \<Rightarrow> string option" where
  "readFileContent cfg fs filePath =
     (case statSync fs filePath of
        Inl e \<Rightarrow> None
      | Inr st \<Rightarrow>
          if statSize st > maxFileSizeKb cfg * 1024 then None
          else (case readFileSync fs filePath of Inl e \<Rightarrow> None | Inr text \<Rightarrow> Some text))"

record ChildContent =
  childPath :: string
  childText :: string

definition newline :: string where
  "newline = [CHR 0x0A]"

definition fence :: string where
  "fence = [CHR 0x60, CHR 0x60, CHR 0x60]"

definition singleFileItem :: "string \<Rightarrow> string \<Rightarrow> string \<Rightarrow> string \<Rightarrow> ChildContent" where
  "singleFileItem directoryPath subdir file fileContent =
     \<lparr> childPath = subdir,
       childText =
         ''# '' @ basename subdir @ '' - '' @ basename file @ newline @ newline @
         ''This file is from a single-file directory: '' @ pathRelative directoryPath subdir @
         newline @ newline @
         fence @ newline @ fileContent @ newline @ fence \<rparr>"

fun singleFileLoop ::
  "CrawlerOptions \<Rightarrow> (string \<Rightarrow> bool) \<Rightarrow> AutodocumentConfig \<Rightarrow> filesystem \<Rightarrow> string \<Rightarrow> string list
     \<Rightarrow> ChildContent list" where
  "singleFileLoop opts shouldIgnore cfg fs directoryPath [] = []"
| "singleFileLoop opts shouldIgnore cfg fs directoryPath (subdir # rest) =
     (case getCodeFiles opts shouldIgnore cfg fs subdir of
        [file] \<Rightarrow>
          (case readFileContent cfg fs file of
             Some fileContent \<Rightarrow>
               if fileContent \<noteq> [] then [singleFileItem directoryPath subdir file fileContent]
               else []
           | None \<Rightarrow> [])
      | _ \<Rightarrow> [])
     @ singleFileLoop opts shouldIgnore cfg fs directoryPath rest"

definition getSingleFileSubdirectories ::
  "CrawlerOptions \<Rightarrow> (string \<Rightarrow> bool) \<Rightarrow> AutodocumentConfig \<Rightarrow> filesystem \<Rightarrow> string
     \<Rightarrow> ChildContent list" where
  "getSingleFileSubdirectories opts shouldIgnore cfg fs directoryPath =
     (case readdirSync fs directoryPath of
        Inl e \<Rightarrow> []
      | Inr entries \<Rightarrow>
          (case filterThrowing (isSubdirectory opts shouldIgnore fs)
                  (map (pathJoin directoryPath) entries) of
             Inl e \<Rightarrow> []
           | Inr subdirs \<Rightarrow> singleFileLoop opts shouldIgnore cfg fs directoryPath subdirs))"

fun subdirectoryDocsLoop :: "AutodocumentConfig \<Rightarrow> filesystem \<Rightarrow> string list \<Rightarrow> ChildContent list" where
  "subdirectoryDocsLoop cfg fs [] = []"
| "subdirectoryDocsLoop cfg fs (subdir # rest) =
     (case getDocumentationFile cfg fs subdir of
        Some docFile \<Rightarrow>
          (case readFileSync fs docFile of
             Inl e \<Rightarrow> []
           | Inr text \<Rightarrow> [\<lparr>childPath = subdir, childText = text\<rparr>])
      | None \<Rightarrow> [])
     @ subdirectoryDocsLoop cfg fs rest"

definition getSubdirectoryDocs ::
  "CrawlerOptions \<Rightarrow> (string \<Rightarrow> bool) \<Rightarrow> AutodocumentConfig \<Rightarrow> filesystem \<Rightarrow> string
     \<Rightarrow> ChildContent list" where
  "getSubdirectoryDocs opts shouldIgnore cfg fs directoryPath =
     (case readdirSync fs directoryPath of
        Inl e \<Rightarrow> []
      | Inr entries \<Rightarrow>
          (case filterThrowing (isSubdirectory opts shouldIgnore fs)
                  (map (pathJoin directoryPath) entries) of
             Inl e \<Rightarrow> []
           | Inr subdirs \<Rightarrow> subdirectoryDocsLoop cfg fs subdirs))"


section \<open>Analyzer\<close>

record AnalyzedFile =
  filePath :: string
  fileContent :: string
  extension :: string

record ExcludedFile =
  excludedPath :: string
  reason :: string

record AnalysisResult =
  analyzedFiles :: "AnalyzedFile list"
  excludedFiles :: "ExcludedFile list"
  limited :: bool
  totalSize :: nat
  limitReason :: "string option"

text \<open>Printing a number in a template string, and \<open>Math.round(n / 1024)\<close>.\<close>

definition digitChar :: "nat \<Rightarrow> char" where
  "digitChar d = ''0123456789'' ! d"

fun showNat :: "nat \<Rightarrow> string" where
  "showNat n = (if n < 10 then [digitChar n] else showNat (n div 10) @ [digitChar (n mod 10)])"

declare showNat.simps [simp del]

definition roundKb :: "nat \<Rightarrow> nat" where
  "roundKb bytes = (bytes + 512) div 1024"

definition pushExcluded :: "string \<Rightarrow> string \<Rightarrow> AnalysisResult \<Rightarrow> AnalysisResult" where
  "pushExcluded p why result =
     result\<lparr>excludedFiles := excludedFiles result @ [\<lparr>excludedPath = p, reason = why\<rparr>]\<rparr>"

definition processFile ::
  "AutodocumentConfig \<Rightarrow> filesystem \<Rightarrow> string \<Rightarrow> AnalysisResult \<Rightarrow> AnalysisResult" where
  "processFile cfg fs p result =
     (case statSync fs p of
        Inl e \<Rightarrow> pushExcluded p (''Error reading file: '' @ e) result
      | Inr st \<Rightarrow>
          let maxFileSize = maxFileSizeKb cfg * 1024 in
          if statSize st > maxFileSize then
            pushExcluded p
              (''File size ('' @ showNat (roundKb (statSize st)) @ ''KB) exceeds limit ('' @
               showNat (maxFileSizeKb cfg) @ ''KB)'') result
          else
            (case readFileSync fs p of
               Inl e \<Rightarrow> pushExcluded p (''Error reading file: '' @ e) result
             | Inr text \<Rightarrow>
                 result\<lparr> analyzedFiles := analyzedFiles result @
                            [\<lparr>filePath = p, fileContent = text,
                              extension = toLowerCase (extname p)\<rparr>],
                         totalSize := totalSize result + statSize st \<rparr>))"

text \<open>
  The callback of the first \<open>filter\<close> of \<open>analyzeFiles\<close> keeps the code files and, as a
  side effect, records every markdown file as excluded.
\<close>

definition isCodeFile :: "AutodocumentConfig \<Rightarrow> string \<Rightarrow> bool" where
  "isCodeFile cfg file =
     (let ext = toLowerCase (extname file) in
      ext \<noteq> ''.md'' \<and> ext \<in> set (codeExtensions cfg))"

definition markdownExcluded :: "string list \<Rightarrow> ExcludedFile list" where
  "markdownExcluded filePaths =
     map (\<lambda>file. \<lparr>excludedPath = file, reason = ''Markdown file excluded from code analysis''\<rparr>)
         (filter (\<lambda>file. toLowerCase (extname file) = ''.md'') filePaths)"

definition countLimitReason :: "nat \<Rightarrow> nat \<Rightarrow> string" where
  "countLimitReason n ceiling = ''Too many files ('' @ showNat n @ '' > '' @ showNat ceiling @ '')''"

definition sizeLimitReason :: "nat \<Rightarrow> nat \<Rightarrow> string" where
  "sizeLimitReason bytes maxTotalSize =
     ''Total size exceeds limit ('' @ showNat (roundKb bytes) @ ''KB > '' @
     showNat (roundKb maxTotalSize) @ ''KB)''"

definition maxTotalSizeOf :: "AutodocumentConfig \<Rightarrow> nat" where
  "maxTotalSizeOf cfg = maxFilesPerDirectory cfg * maxFileSizeKb cfg * 1024"

text \<open>The loop of the file-count branch.\<close>

fun countLimitLoop ::
  "AutodocumentConfig \<Rightarrow> filesystem \<Rightarrow> string list \<Rightarrow> string list \<Rightarrow> AnalysisResult
     \<Rightarrow> AnalysisResult" where
  "countLimitLoop cfg fs limitedFiles [] result = result"
| "countLimitLoop cfg fs limitedFiles (file # rest) result =
     countLimitLoop cfg fs limitedFiles rest
       (if file \<in> set limitedFiles then processFile cfg fs file result
        else pushExcluded file ''Excluded due to file count limit'' result)"

text \<open>The loop "Process all files", with its \<open>break\<close>.\<close>

fun sizeLimitLoop ::
  "AutodocumentConfig \<Rightarrow> filesystem \<Rightarrow> string list \<Rightarrow> AnalysisResult \<Rightarrow> AnalysisResult" where
  "sizeLimitLoop cfg fs [] result = result"
| "sizeLimitLoop cfg fs (file # rest) result =
     (let result' = processFile cfg fs file result;
          maxTotalSize = maxTotalSizeOf cfg
      in if totalSize result' > maxTotalSize then
           result'\<lparr> limited := True,
                    limitReason := Some (sizeLimitReason (totalSize result') maxTotalSize) \<rparr>
         else sizeLimitLoop cfg fs rest result')"

definition analyzeFiles ::
  "AutodocumentConfig \<Rightarrow> filesystem \<Rightarrow> string \<Rightarrow> string list \<Rightarrow> AnalysisResult" where
  "analyzeFiles cfg fs directoryPath filePaths =
     (let result = \<lparr> analyzedFiles = [], excludedFiles = markdownExcluded filePaths,
                      limited = False, totalSize = 0, limitReason = None \<rparr>;
          codeFiles = filter (isCodeFile cfg) filePaths
      in if length codeFiles > maxFilesPerDirectory cfg then
           countLimitLoop cfg fs (take (maxFilesPerDirectory cfg) codeFiles) codeFiles
             (result\<lparr> limited := True,
                      limitReason := Some (countLimitReason (length codeFiles)
                                             (maxFilesPerDirectory cfg)) \<rparr>)
         else sizeLimitLoop cfg fs codeFiles result)"

definition shouldDocument :: "AutodocumentConfig \<Rightarrow> string \<Rightarrow> string list \<Rightarrow> bool \<Rightarrow> bool" where
  "shouldDocument cfg directoryPath filePaths hasSubdirs =
     (let codeFiles = filter (isCodeFile cfg) filePaths in
      if length codeFiles = 1 \<and> \<not> hasSubdirs then False
      else length codeFiles > 0)"

section \<open>Tools\<close>

record AutoToolResult =
  outputPath :: string
  success :: bool
  content :: string
  error :: "string option"
  isUpdate :: bool
  skipped :: "bool option"

record DocumentationResponse =
  responseContent :: string
  successful :: bool
  responseError :: "string option"

text \<open>
  \<open>OpenRouterClient.generateWithCustomPrompt\<close>, the call to the language model: a
  parameter. It gets the files as (relative path, content), the system prompt, the existing
  content, \<open>isTopLevel\<close> and the children's content; \<open>Inl\<close> is a rejected promise.
\<close>

type_synonym llmClient =
  "(string \<times> string) list \<Rightarrow> string \<Rightarrow> string option \<Rightarrow> bool \<Rightarrow> ChildContent list
     \<Rightarrow> string + DocumentationResponse"

record ToolConfig =
  outputFilename :: string
  fallbackFilename :: string
  updateExisting :: bool
  systemPrompt :: string
  topLevelPrompt :: string
  withChildrenPrompt :: string

text \<open>
  A tool object: its configuration, its client, the imported constant
  \<open>updateExistingContentPrompt\<close>, and the noun its messages use (\<open>test plan\<close> for
  \<open>TestPlanTool\<close>, \<open>documentation\<close> for \<open>DocumentationTool\<close>); the two classes have the
  same \<open>generate\<close> otherwise.
\<close>

record Tool =
  toolConfig :: ToolConfig
  openRouterClient :: llmClient
  updateExistingContentPrompt :: string
  artifactNoun :: string

definition readExistingFile :: "filesystem \<Rightarrow> string \<Rightarrow> string option" where
  "readExistingFile fs p =
     (if existsSync fs p then
        (case readFileSync fs p of Inl e \<Rightarrow> None | Inr text \<Rightarrow> Some text)
      else None)"

definition failed :: "string \<Rightarrow> string \<Rightarrow> bool \<Rightarrow> AutoToolResult" where
  "failed p message upd =
     \<lparr> outputPath = p, success = False, content = [], error = Some message,
       isUpdate = upd, skipped = None \<rparr>"

text \<open>
  \<open>generate\<close>, in three parts: the choice of the system prompt, what the \<open>try\<close> block
  does with the answer of the client (\<open>Inl\<close>: the call or the write threw, and the
  \<open>catch\<close> builds the result), and the method itself. \<open>orUndefined\<close> is
  \<open>existingTestPlan || undefined\<close>: the empty text counts as absent.
\<close>

definition orUndefined :: "string option \<Rightarrow> string option" where
  "orUndefined existing =
     (case existing of None \<Rightarrow> None | Some old \<Rightarrow> if old = [] then None else Some old)"

definition selectPrompt :: "Tool \<Rightarrow> bool \<Rightarrow> ChildContent list \<Rightarrow> string option \<Rightarrow> string" where
  "selectPrompt tool isTopLevel childrenContent existingTestPlan =
     (let cfg = toolConfig tool;
          prompt = (if isTopLevel then topLevelPrompt cfg
                    else if childrenContent \<noteq> [] then withChildrenPrompt cfg
                    else systemPrompt cfg)
      in if orUndefined existingTestPlan \<noteq> None
         then prompt @ '' '' @ updateExistingContentPrompt tool else prompt)"

definition finishGeneration ::
  "Tool \<Rightarrow> filesystem \<Rightarrow> string \<Rightarrow> bool \<Rightarrow> string + DocumentationResponse
     \<Rightarrow> AutoToolResult \<times> filesystem" where
  "finishGeneration tool fs testPlanFilePath isUpd response =
     (case response of
        Inl message \<Rightarrow>
          (failed testPlanFilePath
             (''Error generating '' @ artifactNoun tool @ '': '' @ message) isUpd, fs)
      | Inr genResult \<Rightarrow>
          if \<not> successful genResult then
            (failed testPlanFilePath
               (case responseError genResult of
                  None \<Rightarrow> ''Unknown error during '' @ artifactNoun tool @ '' generation''
                | Some message \<Rightarrow>
                    if message = []
                    then ''Unknown error during '' @ artifactNoun tool @ '' generation''
                    else message)
               isUpd, fs)
          else
            (case writeFile fs testPlanFilePath (responseContent genResult) of
               Inl message \<Rightarrow>
                 (failed testPlanFilePath
                    (''Error generating '' @ artifactNoun tool @ '': '' @ message) isUpd, fs)
             | Inr fs' \<Rightarrow>
                 (\<lparr> outputPath = testPlanFilePath, success = True,
                    content = responseContent genResult, error = None,
                    isUpdate = isUpd, skipped = None \<rparr>, fs')))"

definition generate ::
  "Tool \<Rightarrow> filesystem \<Rightarrow> string \<Rightarrow> AnalysisResult \<Rightarrow> bool \<Rightarrow> ChildContent list
     \<Rightarrow> AutoToolResult \<times> filesystem" where
  "generate tool fs directoryPath analysisResult isTopLevel childrenContent =
     (let testPlanFilePath = pathJoin directoryPath (outputFilename (toolConfig tool));
          existingTestPlan = readExistingFile fs testPlanFilePath;
          isUpd = (existingTestPlan \<noteq> None)
      in if isUpd \<and> \<not> updateExisting (toolConfig tool) then
           (\<lparr> outputPath = testPlanFilePath, success = True,
              content = (case existingTestPlan of Some old \<Rightarrow> old | None \<Rightarrow> []),
              error = None, isUpdate = False, skipped = Some True \<rparr>, fs)
         else
           finishGeneration tool fs testPlanFilePath isUpd
             (openRouterClient tool
                (map (\<lambda>file. (pathRelative directoryPath (filePath file), fileContent file))
                     (analyzedFiles analysisResult))
                (selectPrompt tool isTopLevel childrenContent existingTestPlan)
                (orUndefined existingTestPlan) isTopLevel childrenContent))"

text \<open>\<open>TestPlanTool.createFallbackContent\<close>\<close>

definition createFallbackContent :: "Tool \<Rightarrow> string \<Rightarrow> AnalysisResult \<Rightarrow> string" where
  "createFallbackContent tool directoryPath analysisResult =
     ''# '' @ basename directoryPath @ '' - Test Plan Skipped'' @ newline @ newline @
     (case limitReason analysisResult of
        Some why \<Rightarrow>
          if limited analysisResult \<and> why \<noteq> []
          then ''## Reason'' @ newline @ newline @ why @ newline @ newline else []
      | None \<Rightarrow> []) @
     (if analyzedFiles analysisResult \<noteq> [] then
        ''## Analyzed Files'' @ newline @ newline @
        concat (map (\<lambda>file. ''- `'' @ pathRelative directoryPath (filePath file) @ ''`'' @ newline)
                    (analyzedFiles analysisResult)) @ newline
      else []) @
     (if excludedFiles analysisResult \<noteq> [] then
        ''## Excluded Files'' @ newline @ newline @
        concat (map (\<lambda>file. ''- `'' @ pathRelative directoryPath (excludedPath file) @ ''`: '' @
                            reason file @ newline)
                    (excludedFiles analysisResult)) @ newline
      else []) @
     ''## How to Fix'' @ newline @ newline @
     ''You can manually create a test plan for this directory by replacing this file with a proper '' @
     outputFilename (toolConfig tool) @ '' file.'' @ newline @
     ''Alternatively, you can increase the file limits in the tool configuration and run again.'' @
     newline"

section \<open>Aggregation driver\<close>

record AggregationError =
  directory :: string
  errorText :: string

record AggregationResult =
  totalDirectories :: nat
  successfulGenerations :: nat
  failedGenerations :: nat
  fallbackFiles :: nat
  updatedGenerations :: nat
  skippedGenerations :: nat
  errors :: "AggregationError list"

text \<open>
  The tool as the aggregator sees it (\<open>BaseTool\<close>): \<open>generate\<close> and
  \<open>createFallbackContent\<close> are methods of an object given to the constructor, and either
  may throw (\<open>Inl\<close>); \<open>generate\<close> may write files.
\<close>

record BaseTool =
  generateMethod ::
    "filesystem \<Rightarrow> string \<Rightarrow> AnalysisResult \<Rightarrow> bool \<Rightarrow> ChildContent list
       \<Rightarrow> (string + AutoToolResult) \<times> filesystem"
  createFallbackContentMethod :: "string \<Rightarrow> AnalysisResult \<Rightarrow> string + string"
  getOutputFilename :: string
  getFallbackFilename :: string

definition asBaseTool :: "Tool \<Rightarrow> BaseTool" where
  "asBaseTool tool =
     \<lparr> generateMethod = (\<lambda>fs directoryPath analysisResult isTopLevel childrenContent.
         case generate tool fs directoryPath analysisResult isTopLevel childrenContent of
           (r, fs') \<Rightarrow> (Inr r, fs')),
       createFallbackContentMethod = (\<lambda>directoryPath analysisResult.
         Inr (createFallbackContent tool directoryPath analysisResult)),
       getOutputFilename = outputFilename (toolConfig tool),
       getFallbackFilename = fallbackFilename (toolConfig tool) \<rparr>"

text \<open>
  \<open>ToolAggregator\<close>: the root path, the tool, the ignore rules its crawler loaded and
  the configuration its crawler and analyzer read. Its crawler is built with
  \<open>{ respectGitignore: true }\<close> over the default \<open>includeHidden: false\<close>.
\<close>

record ToolAggregator =
  rootPath :: string
  tool :: BaseTool
  ignoreRules :: "string \<Rightarrow> bool"
  config :: AutodocumentConfig

definition crawlerOptions :: CrawlerOptions where
  "crawlerOptions = \<lparr>respectGitignore = True, includeHidden = False\<rparr>"

definition truthy :: "bool option \<Rightarrow> bool" where
  "truthy b = (case b of Some True \<Rightarrow> True | _ \<Rightarrow> False)"

definition pushError :: "string \<Rightarrow> string \<Rightarrow> AggregationResult \<Rightarrow> AggregationResult" where
  "pushError dir message result =
     result\<lparr>errors := errors result @ [\<lparr>directory = dir, errorText = message\<rparr>]\<rparr>"

definition generateContent ::
  "ToolAggregator \<Rightarrow> filesystem \<Rightarrow> string \<Rightarrow> AnalysisResult \<Rightarrow> bool \<Rightarrow> ChildContent list
     \<Rightarrow> AggregationResult \<Rightarrow> AutoToolResult \<times> AggregationResult \<times> filesystem" where
  "generateContent agg fs directoryPath analysisResult isTopLevel childContent aggregationResult =
     (case generateMethod (tool agg) fs directoryPath analysisResult isTopLevel childContent of
        (Inr genResult, fs') \<Rightarrow>
          if success genResult then
            (genResult,
             aggregationResult\<lparr>successfulGenerations := successfulGenerations aggregationResult + 1\<rparr>,
             fs')
          else
            (genResult,
             pushError directoryPath
               (case error genResult of
                  None \<Rightarrow> ''Unknown error''
                | Some message \<Rightarrow> if message = [] then ''Unknown error'' else message)
               (aggregationResult\<lparr>failedGenerations := failedGenerations aggregationResult + 1\<rparr>),
             fs')
      | (Inl message, fs') \<Rightarrow>
          (\<lparr> outputPath = pathJoin directoryPath (getOutputFilename (tool agg)), success = False,
             content = [], error = Some message, isUpdate = False, skipped = None \<rparr>,
           pushError directoryPath message
             (aggregationResult\<lparr>failedGenerations := failedGenerations aggregationResult + 1\<rparr>),
           fs'))"

text \<open>
  The body of the loop of \<open>run\<close> for one directory, without a progress callback. \<open>Inl\<close> is
  an exception that leaves the body; the counters and the files are then as they were.
\<close>

definition processDirectory ::
  "ToolAggregator \<Rightarrow> string \<Rightarrow> AggregationResult \<times> filesystem
     \<Rightarrow> string + AggregationResult \<times> filesystem" where
  "processDirectory agg directoryPath st =
     (case st of (result, fs) \<Rightarrow>
      let fileList = getCodeFiles crawlerOptions (ignoreRules agg) (config agg) fs directoryPath;
          hasSubdirs = hasSubdirectories crawlerOptions (ignoreRules agg) fs directoryPath
      in if \<not> shouldDocument (config agg) directoryPath fileList hasSubdirs then Inr (result, fs)
         else
           let subdirContent =
                 getSubdirectoryDocs crawlerOptions (ignoreRules agg) (config agg) fs directoryPath;
               singleFileContent =
                 getSingleFileSubdirectories crawlerOptions (ignoreRules agg) (config agg) fs
                   directoryPath;
               analysisResult = analyzeFiles (config agg) fs directoryPath fileList
           in if limited analysisResult then
                (case createFallbackContentMethod (tool agg) directoryPath analysisResult of
                   Inl message \<Rightarrow> Inl message
                 | Inr fallbackContent \<Rightarrow>
                     (case writeFile fs (pathJoin directoryPath (getFallbackFilename (tool agg)))
                             fallbackContent of
                        Inl message \<Rightarrow> Inl message
                      | Inr fs' \<Rightarrow> Inr (result\<lparr>fallbackFiles := fallbackFiles result + 1\<rparr>, fs')))
              else
                let allChildContent = subdirContent @ singleFileContent;
                    isTopLevel = (directoryPath = rootPath agg)
                in case generateContent agg fs directoryPath analysisResult isTopLevel
                          allChildContent result of
                     (genResult, result', fs') \<Rightarrow>
                       Inr (if truthy (skipped genResult) then
                              result'\<lparr>skippedGenerations := skippedGenerations result' + 1\<rparr>
                            else if isUpdate genResult then
                              result'\<lparr>updatedGenerations := updatedGenerations result' + 1\<rparr>
                            else result',
                            fs'))"

text \<open>
  The loop over the bottom-up order inside the \<open>try\<close> of \<open>run\<close>: the first component is
  the exception that ended it, if any.
\<close>

fun forEachDirectory ::
  "ToolAggregator \<Rightarrow> string list \<Rightarrow> AggregationResult \<times> filesystem
     \<Rightarrow> string option \<times> AggregationResult \<times> filesystem" where
  "forEachDirectory agg [] st = (None, st)"
| "forEachDirectory agg (directoryPath # rest) st =
     (case processDirectory agg directoryPath st of
        Inl message \<Rightarrow> (Some message, st)
      | Inr st' \<Rightarrow> forEachDirectory agg rest st')"

text \<open>
  \<open>run\<close>. The tree \<open>root\<close> is the file system under the root path as the scan at the start
  of the run sees it; \<open>fs\<close> answers the later queries on single paths.
\<close>

definition run ::
  "ToolAggregator \<Rightarrow> fsnode \<Rightarrow> filesystem \<Rightarrow> AggregationResult \<times> filesystem" where
  "run agg root fs =
     (let result = \<lparr> totalDirectories = 0, successfulGenerations = 0, failedGenerations = 0,
                      fallbackFiles = 0, updatedGenerations = 0, skippedGenerations = 0,
                      errors = [] \<rparr>;
          directories = createBottomUpOrder crawlerOptions (ignoreRules agg) (rootPath agg) root
      in case forEachDirectory agg directories
                (result\<lparr>totalDirectories := length directories\<rparr>, fs) of
           (None, result', fs') \<Rightarrow> (result', fs')
         | (Some message, result', fs') \<Rightarrow>
             (pushError (rootPath agg) (''Global error: '' @ message) result', fs'))"


section \<open>The driver and its collaborators\<close>

text \<open>
  \<open>run\<close> calls the Analyzer and the Child-Content Collector as methods of the objects
  \<open>this.analyzer\<close> and \<open>this.crawler\<close>. The driver over these methods, each of which may
  return or throw (\<open>Inl\<close>): the body of the loop, the loop and \<open>run\<close> are those above, the
  three calls being calls of methods; no handler stands between a call and the handler
  around the whole of \<open>run\<close>.
\<close>

record Collaborators =
  getSubdirectoryDocsMethod :: "filesystem \<Rightarrow> string \<Rightarrow> string + ChildContent list"
  getSingleFileSubdirectoriesMethod :: "filesystem \<Rightarrow> string \<Rightarrow> string + ChildContent list"
  analyzeFilesMethod :: "filesystem \<Rightarrow> string \<Rightarrow> string list \<Rightarrow> string + AnalysisResult"

text \<open>The methods of the repository: they return what the functions above return.\<close>

definition repositoryCollaborators :: "ToolAggregator \<Rightarrow> Collaborators" where
  "repositoryCollaborators agg =
     \<lparr> getSubdirectoryDocsMethod = (\<lambda>fs directoryPath.
         Inr (getSubdirectoryDocs crawlerOptions (ignoreRules agg) (config agg) fs directoryPath)),
       getSingleFileSubdirectoriesMethod = (\<lambda>fs directoryPath.
         Inr (getSingleFileSubdirectories crawlerOptions (ignoreRules agg) (config agg) fs
                directoryPath)),
       analyzeFilesMethod = (\<lambda>fs directoryPath filePaths.
         Inr (analyzeFiles (config agg) fs directoryPath filePaths)) \<rparr>"

definition processDirectoryWith ::
  "Collaborators \<Rightarrow> ToolAggregator \<Rightarrow> string \<Rightarrow> AggregationResult \<times> filesystem
     \<Rightarrow> string + AggregationResult \<times> filesystem" where
  "processDirectoryWith ops agg directoryPath st =
     (case st of (result, fs) \<Rightarrow>
      let fileList = getCodeFiles crawlerOptions (ignoreRules agg) (config agg) fs directoryPath;
          hasSubdirs = hasSubdirectories crawlerOptions (ignoreRules agg) fs directoryPath
      in if \<not> shouldDocument (config agg) directoryPath fileList hasSubdirs then Inr (result, fs)
         else
           case getSubdirectoryDocsMethod ops fs directoryPath of
             Inl message \<Rightarrow> Inl message
           | Inr subdirContent \<Rightarrow>
           case getSingleFileSubdirectoriesMethod ops fs directoryPath of
             Inl message \<Rightarrow> Inl message
           | Inr singleFileContent \<Rightarrow>
           case analyzeFilesMethod ops fs directoryPath fileList of
             Inl message \<Rightarrow> Inl message
           | Inr analysisResult \<Rightarrow>
              if limited analysisResult then
                (case createFallbackContentMethod (tool agg) directoryPath analysisResult of
                   Inl message \<Rightarrow> Inl message
                 | Inr fallbackContent \<Rightarrow>
                     (case writeFile fs (pathJoin directoryPath (getFallbackFilename (tool agg)))
                             fallbackContent of
                        Inl message \<Rightarrow> Inl message
                      | Inr fs' \<Rightarrow> Inr (result\<lparr>fallbackFiles := fallbackFiles result + 1\<rparr>, fs')))
              else
                let allChildContent = subdirContent @ singleFileContent;
                    isTopLevel = (directoryPath = rootPath agg)
                in case generateContent agg fs directoryPath analysisResult isTopLevel
                          allChildContent result of
                     (genResult, result', fs') \<Rightarrow>
                       Inr (if truthy (skipped genResult) then
                              result'\<lparr>skippedGenerations := skippedGenerations result' + 1\<rparr>
                            else if isUpdate genResult then
                              result'\<lparr>updatedGenerations := updatedGenerations result' + 1\<rparr>
                            else result',
                            fs'))"

fun forEachDirectoryWith ::
  "Collaborators \<Rightarrow> ToolAggregator \<Rightarrow> string list \<Rightarrow> AggregationResult \<times> filesystem
     \<Rightarrow> string option \<times> AggregationResult \<times> filesystem" where
  "forEachDirectoryWith ops agg [] st = (None, st)"
| "forEachDirectoryWith ops agg (directoryPath # rest) st =
     (case processDirectoryWith ops agg directoryPath st of
        Inl message \<Rightarrow> (Some message, st)
      | Inr st' \<Rightarrow> forEachDirectoryWith ops agg rest st')"

definition runWith ::
  "Collaborators \<Rightarrow> ToolAggregator \<Rightarrow> fsnode \<Rightarrow> filesystem \<Rightarrow> AggregationResult \<times> filesystem" where
  "runWith ops agg root fs =
     (let result = \<lparr> totalDirectories = 0, successfulGenerations = 0, failedGenerations = 0,
                      fallbackFiles = 0, updatedGenerations = 0, skippedGenerations = 0,
                      errors = [] \<rparr>;
          directories = createBottomUpOrder crawlerOptions (ignoreRules agg) (rootPath agg) root
      in case forEachDirectoryWith ops agg directories
                (result\<lparr>totalDirectories := length directories\<rparr>, fs) of
           (None, result', fs') \<Rightarrow> (result', fs')
         | (Some message, result', fs') \<Rightarrow>
             (pushError (rootPath agg) (''Global error: '' @ message) result', fs'))"


section \<open>Notions used to state the properties\<close>

text \<open>The paths of a directory tree, every subdirectory before its parent.\<close>

fun dirPaths :: "Directory \<Rightarrow> string list" where
  "dirPaths (Directory p n subs fs lf) = concat (map dirPaths subs) @ [p]"

text \<open>All the directories of a tree.\<close>

fun allNodes :: "Directory \<Rightarrow> Directory list" where
  "allNodes (Directory p n subs fs lf) = Directory p n subs fs lf # concat (map allNodes subs)"

text \<open>The index of the first occurrence of an element (the length when there is none).\<close>

definition indexOf :: "'a list \<Rightarrow> 'a \<Rightarrow> nat" where
  "indexOf xs x = length (takeWhile (\<lambda>y. y \<noteq> x) xs)"

text \<open>
  A file system tree as \<open>readdirSync\<close> can return it: the names in one directory are
  distinct and contain no separator.
\<close>

fun wfFs :: "fsnode \<Rightarrow> bool" where
  "wfFs (FsDir entries) =
     (distinct (map fst entries) \<and>
      (\<forall>e \<in> set entries. CHR ''/'' \<notin> set (fst e) \<and> wfFs (snd e)))"
| "wfFs FsFile = True"
| "wfFs FsUnreadableDir = True"
| "wfFs FsBroken = True"

definition isDirNode :: "fsnode \<Rightarrow> bool" where
  "isDirNode c = (case c of FsDir es \<Rightarrow> True | FsUnreadableDir \<Rightarrow> True | _ \<Rightarrow> False)"

definition skippedEntry :: "CrawlerOptions \<Rightarrow> (string \<Rightarrow> bool) \<Rightarrow> string \<Rightarrow> string \<Rightarrow> bool" where
  "skippedEntry opts shouldIgnore dirPath entry =
     ((respectGitignore opts \<and> shouldIgnore (pathJoin dirPath entry)) \<or>
      (\<not> includeHidden opts \<and> startsWithDot entry))"

text \<open>
  The directories that can be reached from the root: the root itself, and every directory
  entry, neither ignored nor hidden, of a reachable readable directory.
\<close>

inductive reachable ::
  "CrawlerOptions \<Rightarrow> (string \<Rightarrow> bool) \<Rightarrow> string \<Rightarrow> fsnode \<Rightarrow> string \<Rightarrow> bool"
  for opts shouldIgnore where
  here: "reachable opts shouldIgnore p node p"
| below: "(n, c) \<in> set es \<Longrightarrow> \<not> skippedEntry opts shouldIgnore p n \<Longrightarrow> isDirNode c \<Longrightarrow>
          reachable opts shouldIgnore (pathJoin p n) c q \<Longrightarrow>
          reachable opts shouldIgnore p (FsDir es) q"

code_pred reachable .

text \<open>\<open>under p q\<close>: the path \<open>q\<close> is \<open>p\<close> or lies below it.\<close>

definition under :: "string \<Rightarrow> string \<Rightarrow> bool" where
  "under p q = (q = p \<or> (\<exists>r. q = p @ CHR ''/'' # r))"

text \<open>
  A file system given by tables: the entries of each directory, and the size and the text
  of each file. Every other path does not exist; no write fails.
\<close>

definition tableFs ::
  "(string \<times> string list) list \<Rightarrow> (string \<times> nat \<times> string) list \<Rightarrow> filesystem" where
  "tableFs dirs fls =
     \<lparr> readdirSync = (\<lambda>p. case map_of dirs p of
                              Some names \<Rightarrow> Inr names
                            | None \<Rightarrow> Inl ''ENOTDIR''),
       statSync = (\<lambda>p. case map_of dirs p of
                          Some names \<Rightarrow> Inr \<lparr>isDirectory = True, statSize = 4096\<rparr>
                        | None \<Rightarrow>
                            (case map_of fls p of
                               Some (n, text) \<Rightarrow> Inr \<lparr>isDirectory = False, statSize = n\<rparr>
                             | None \<Rightarrow> Inl ''ENOENT'')),
       readFileSync = (\<lambda>p. case map_of fls p of
                               Some (n, text) \<Rightarrow> Inr text
                             | None \<Rightarrow> Inl ''ENOENT''),
       writeFails = (\<lambda>p. None) \<rparr>"

section \<open>Notions used to state the analyzer's properties\<close>

text \<open>
  What the analysis of one file adds to \<open>analyzedFiles\<close>: the file can be read and is
  within the per-file size limit.
\<close>

definition analyzable :: "AutodocumentConfig \<Rightarrow> filesystem \<Rightarrow> string \<Rightarrow> AnalyzedFile option" where
  "analyzable cfg fs p =
     (case statSync fs p of
        Inl e \<Rightarrow> None
      | Inr st \<Rightarrow>
          if statSize st \<le> maxFileSizeKb cfg * 1024 then
            (case readFileSync fs p of
               Inl e \<Rightarrow> None
             | Inr text \<Rightarrow> Some \<lparr>filePath = p, fileContent = text, extension = toLowerCase (extname p)\<rparr>)
          else None)"

definition sizeOnDisk :: "filesystem \<Rightarrow> string \<Rightarrow> nat" where
  "sizeOnDisk fs p = (case statSync fs p of Inl e \<Rightarrow> 0 | Inr st \<Rightarrow> statSize st)"

definition processFiles :: "AutodocumentConfig \<Rightarrow> filesystem \<Rightarrow> string list \<Rightarrow> AnalysisResult \<Rightarrow> AnalysisResult" where
  "processFiles cfg fs xs result = fold (processFile cfg fs) xs result"

definition countLimitText :: string where
  "countLimitText = ''Excluded due to file count limit''"

definition stopAt :: "AutodocumentConfig \<Rightarrow> AnalysisResult \<Rightarrow> AnalysisResult" where
  "stopAt cfg result =
     result\<lparr> limited := True,
              limitReason := Some (sizeLimitReason (totalSize result) (maxTotalSizeOf cfg)) \<rparr>"

definition freshResult :: "string list \<Rightarrow> AnalysisResult" where
  "freshResult filePaths =
     \<lparr> analyzedFiles = [], excludedFiles = markdownExcluded filePaths,
       limited = False, totalSize = 0, limitReason = None \<rparr>"

text \<open>
  The total size after the files \<open>xs\<close> have been analyzed, starting from the result \<open>r\<close>:
  the sizes on disk of the files of \<open>xs\<close> that are analyzed are added.
\<close>

definition runningTotal :: "AutodocumentConfig \<Rightarrow> filesystem \<Rightarrow> AnalysisResult \<Rightarrow> string list \<Rightarrow> nat" where
  "runningTotal cfg fs r xs =
     totalSize r + sum_list (map (sizeOnDisk fs) (filter (\<lambda>p. analyzable cfg fs p \<noteq> None) xs))"

definition cfgSmall :: AutodocumentConfig where
  "cfgSmall = \<lparr> codeExtensions = [''.ts'', ''.js''], maxFileSizeKb = 1, maxFilesPerDirectory = 2,
                documentationOutputFilename = ''documentation.md'' \<rparr>"

definition fsSmall :: filesystem where
  "fsSmall = tableFs [(''/d'', [''a.ts'', ''b.ts'', ''c.js'', ''notes.md''])]
                     [(''/d/a.ts'', 1024, ''A''), (''/d/b.ts'', 1024, ''B''), (''/d/c.js'', 2000, ''C''),
                      (''/d/notes.md'', 10, ''N'')]"

definition cfgP8 :: AutodocumentConfig where
  "cfgP8 = \<lparr> codeExtensions = [''.ts''], maxFileSizeKb = 10, maxFilesPerDirectory = 2,
             documentationOutputFilename = ''documentation.md'' \<rparr>"

definition fsP8 :: filesystem where
  "fsP8 = tableFs [(''/d'', [''a.ts'', ''b.ts'', ''c.ts''])]
                  [(''/d/a.ts'', 9216, ''A''), (''/d/b.ts'', 9216, ''B''), (''/d/c.ts'', 9216, ''C'')]"

text \<open>Example tools, configurations and file systems.\<close>

definition exampleToolConfig :: "bool \<Rightarrow> ToolConfig" where
  "exampleToolConfig upd =
     \<lparr> outputFilename = ''testplan.md'', fallbackFilename = ''untested.md'', updateExisting = upd,
       systemPrompt = ''system'', topLevelPrompt = ''top'', withChildrenPrompt = ''children'' \<rparr>"

definition llmSucceeds :: llmClient where
  "llmSucceeds = (\<lambda>fileList prompt existing isTopLevel childrenContent.
     Inr \<lparr>responseContent = ''# Test Plan'', successful = True, responseError = None\<rparr>)"

definition llmFails :: llmClient where
  "llmFails = (\<lambda>fileList prompt existing isTopLevel childrenContent.
     Inr \<lparr>responseContent = [], successful = False, responseError = Some ''rate limited''\<rparr>)"

definition exampleTool :: "bool \<Rightarrow> llmClient \<Rightarrow> Tool" where
  "exampleTool upd llm =
     \<lparr> toolConfig = exampleToolConfig upd, openRouterClient = llm,
       updateExistingContentPrompt = ''update'', artifactNoun = ''test plan'' \<rparr>"

definition fsArtifact :: filesystem where
  "fsArtifact = tableFs [(''/d'', [''a.ts'', ''b.ts'', ''testplan.md''])]
                        [(''/d/a.ts'', 10, ''A''), (''/d/b.ts'', 12, ''B''), (''/d/testplan.md'', 5, ''# old'')]"

text \<open>The same directory, the artifact being there but not readable.\<close>

definition fsUnreadableArtifact :: filesystem where
  "fsUnreadableArtifact =
     fsArtifact\<lparr> readFileSync := (\<lambda>p. if p = ''/d/testplan.md'' then Inl ''EACCES''
                                         else readFileSync fsArtifact p) \<rparr>"

definition skipResult :: "string \<Rightarrow> string \<Rightarrow> AutoToolResult" where
  "skipResult p old =
     \<lparr> outputPath = p, success = True, content = old, error = None, isUpdate = False,
       skipped = Some True \<rparr>"

definition exampleConfig :: AutodocumentConfig where
  "exampleConfig = \<lparr> codeExtensions = [''.ts'', ''.js''], maxFileSizeKb = 100, maxFilesPerDirectory = 20,
                      documentationOutputFilename = ''documentation.md'' \<rparr>"

definition aggregatorFor :: "string \<Rightarrow> Tool \<Rightarrow> ToolAggregator" where
  "aggregatorFor root t =
     \<lparr> rootPath = root, tool = asBaseTool t, ignoreRules = (\<lambda>p. False), config = exampleConfig \<rparr>"

definition emptyResult :: AggregationResult where
  "emptyResult = \<lparr> totalDirectories = 0, successfulGenerations = 0, failedGenerations = 0,
                    fallbackFiles = 0, updatedGenerations = 0, skippedGenerations = 0, errors = [] \<rparr>"

definition fsRepo :: filesystem where
  "fsRepo = tableFs [(''/repo'', [''src'']), (''/repo/src'', [''a.ts'', ''b.ts''])]
                    [(''/repo/src/a.ts'', 10, ''A''), (''/repo/src/b.ts'', 12, ''B'')]"

definition fsUnreadable :: filesystem where
  "fsUnreadable =
     (tableFs [(''/d'', [''a.ts'', ''b.ts''])] [(''/d/a.ts'', 10, ''A''), (''/d/b.ts'', 12, ''B'')])
       \<lparr> readFileSync := (\<lambda>p. if p = ''/d/a.ts'' then Inl ''EACCES'' else
                              if p = ''/d/b.ts'' then Inr ''B'' else Inl ''ENOENT'') \<rparr>"

definition fsSingle :: "nat \<Rightarrow> string \<Rightarrow> filesystem" where
  "fsSingle n body =
     tableFs [(''/p'', [''lib'', ''x.ts'', ''y.ts'']), (''/p/lib'', [''index.ts''])]
             [(''/p/lib/index.ts'', n, body), (''/p/x.ts'', 1, ''x''), (''/p/y.ts'', 1, ''y'')]"

text \<open>
  The exception that the Collector or the Analyzer throws to the driver for a directory, in
  the order in which the driver calls them; \<open>None\<close> when all three calls return.
\<close>

definition thrownByCollaborators ::
  "Collaborators \<Rightarrow> ToolAggregator \<Rightarrow> filesystem \<Rightarrow> string \<Rightarrow> string option" where
  "thrownByCollaborators ops agg fs directoryPath =
     (case getSubdirectoryDocsMethod ops fs directoryPath of
        Inl message \<Rightarrow> Some message
      | Inr subdirContent \<Rightarrow>
          (case getSingleFileSubdirectoriesMethod ops fs directoryPath of
             Inl message \<Rightarrow> Some message
           | Inr singleFileContent \<Rightarrow>
               (case analyzeFilesMethod ops fs directoryPath
                       (getCodeFiles crawlerOptions (ignoreRules agg) (config agg) fs directoryPath) of
                  Inl message \<Rightarrow> Some message
                | Inr analysisResult \<Rightarrow> None)))"





text \<open>An example tree.\<close>

definition exampleTree :: fsnode where
  "exampleTree =
     FsDir [(''src'', FsDir [(''crawler'', FsDir [(''index.ts'', FsFile)]),
                             (''tools'', FsUnreadableDir),
                             (''main.ts'', FsFile)]),
            (''.git'', FsDir [(''objects'', FsDir [])]),
            (''node_modules'', FsDir [(''ignore'', FsDir [])]),
            (''README.md'', FsFile)]"

section \<open>The bottom-up order\<close>

lemma processDir_postorder:
  "distinct (dirPaths d) \<Longrightarrow> set (dirPaths d) \<inter> set acc = {} \<Longrightarrow>
     processDir d (acc, set acc) = (acc @ dirPaths d, set (acc @ dirPaths d))"
  "distinct (concat (map dirPaths ds)) \<Longrightarrow> set (concat (map dirPaths ds)) \<inter> set acc = {} \<Longrightarrow>
     processSubdirs ds (acc, set acc) =
       (acc @ concat (map dirPaths ds), set (acc @ concat (map dirPaths ds)))"
proof (induction d "(acc, set acc)" and ds "(acc, set acc)" arbitrary: acc and acc
       rule: processDir_processSubdirs.induct)
  case (1 p n subs fs lf)
  then show ?case by auto
next
  case 2
  then show ?case by simp
next
  case (3 subdir rest)
  have pin: "path subdir \<in> set (dirPaths subdir)" by (cases subdir) simp
  from 3(3,4) have d1: "distinct (dirPaths subdir)" and d2: "distinct (concat (map dirPaths rest))"
    and d3: "set (dirPaths subdir) \<inter> set (concat (map dirPaths rest)) = {}"
    and d4: "set (dirPaths subdir) \<inter> set acc = {}"
    and d5: "set (concat (map dirPaths rest)) \<inter> set acc = {}"
    by auto
  from pin d4 have nin: "path subdir \<notin> snd (acc, set acc)" by auto
  have s1: "processDir subdir (acc, set acc) = (acc @ dirPaths subdir, set (acc @ dirPaths subdir))"
    using 3(1)[OF nin d1 d4] .
  have d6: "set (concat (map dirPaths rest)) \<inter> set (acc @ dirPaths subdir) = {}"
    using d3 d5 by auto
  have s2: "processSubdirs rest (acc @ dirPaths subdir, set (acc @ dirPaths subdir)) =
     ((acc @ dirPaths subdir) @ concat (map dirPaths rest),
      set ((acc @ dirPaths subdir) @ concat (map dirPaths rest)))"
    using 3(2)[of "acc @ dirPaths subdir"] nin s1 d2 d6 by simp
  show ?case using nin s1 s2 by simp
qed

lemma bottomUpOrderOf_postorder:
  "distinct (dirPaths t) \<Longrightarrow> bottomUpOrderOf t = dirPaths t"
  using processDir_postorder(1)[of t "[]"] by (simp add: bottomUpOrderOf_def)

lemma under_refl: "under p p" by (simp add: under_def)

lemma under_join: "under (pathJoin p n) q \<Longrightarrow> under p q"
  by (auto simp: under_def pathJoin_def)

lemma under_join_neq: "under (pathJoin p n) q \<Longrightarrow> q \<noteq> p"
  by (auto simp: under_def pathJoin_def)

lemma under_siblings:
  assumes "under (pathJoin p n1) q" "under (pathJoin p n2) q"
    "CHR ''/'' \<notin> set n1" "CHR ''/'' \<notin> set n2"
  shows "n1 = n2"
proof -
  from assms(1) obtain s1 where s1: "q = p @ ''/'' @ n1 @ s1" "s1 = [] \<or> hd s1 = CHR ''/''"
    by (auto simp: under_def pathJoin_def)
  from assms(2) obtain s2 where s2: "q = p @ ''/'' @ n2 @ s2" "s2 = [] \<or> hd s2 = CHR ''/''"
    by (auto simp: under_def pathJoin_def)
  from s1 s2 have e: "n1 @ s1 = n2 @ s2" by simp
  have "takeWhile (\<lambda>c. c \<noteq> CHR ''/'') (n1 @ s1) = n1"
    using assms(3) s1(2) by (cases s1) (auto simp: takeWhile_append)
  moreover have "takeWhile (\<lambda>c. c \<noteq> CHR ''/'') (n2 @ s2) = n2"
    using assms(4) s2(2) by (cases s2) (auto simp: takeWhile_append)
  ultimately show ?thesis using e by simp
qed

lemma scanEntries_Cons_fst:
  "fst (scanEntries opts ig p ((n, c) # rest)) =
     (if \<not> skippedEntry opts ig p n \<and> isDirNode c
      then scanDirectory opts ig (pathJoin p n) c # fst (scanEntries opts ig p rest)
      else fst (scanEntries opts ig p rest))"
  by (cases c; cases "scanEntries opts ig p rest") (simp_all add: skippedEntry_def isDirNode_def Let_def)

lemma scanEntries_subs:
  "set (fst (scanEntries opts ig p es)) =
     {scanDirectory opts ig (pathJoin p n) c | n c. (n, c) \<in> set es \<and> \<not> skippedEntry opts ig p n \<and> isDirNode c}"
proof (induction es)
  case Nil
  then show ?case by simp
next
  case (Cons e es)
  obtain n c where e: "e = (n, c)" by (cases e)
  show ?case unfolding e scanEntries_Cons_fst using Cons by auto
qed

lemma dirPaths_scanDir:
  "dirPaths (scanDirectory opts ig p (FsDir es)) =
     concat (map dirPaths (fst (scanEntries opts ig p es))) @ [p]"
  by (simp split: prod.splits)

lemma dirPaths_scan_leaf:
  "\<not> (\<exists>es. node = FsDir es) \<Longrightarrow> dirPaths (scanDirectory opts ig p node) = [p]"
  by (cases node) auto

lemma reachable_leaf:
  "\<not> (\<exists>es. node = FsDir es) \<Longrightarrow> reachable opts ig p node q \<longleftrightarrow> q = p"
  by (auto elim: reachable.cases intro: reachable.intros)

lemma reachable_dir:
  "reachable opts ig p (FsDir es) q \<longleftrightarrow>
     (q = p \<or> (\<exists>n c. (n, c) \<in> set es \<and> \<not> skippedEntry opts ig p n \<and> isDirNode c \<and>
                    reachable opts ig (pathJoin p n) c q))"
  by (auto elim: reachable.cases intro: reachable.intros)

lemma scan_set:
  "set (dirPaths (scanDirectory opts ig p node)) = {q. reachable opts ig p node q}"
proof (induction node arbitrary: p)
  case (FsDir es)
  have IH: "\<And>n c p. (n, c) \<in> set es \<Longrightarrow>
     set (dirPaths (scanDirectory opts ig p c)) = {q. reachable opts ig p c q}"
    using FsDir by fastforce
  have "set (concat (map dirPaths (fst (scanEntries opts ig p es)))) =
        {q. \<exists>n c. (n, c) \<in> set es \<and> \<not> skippedEntry opts ig p n \<and> isDirNode c \<and>
                    reachable opts ig (pathJoin p n) c q}" (is "?L = ?R")
  proof
    show "?L \<subseteq> ?R"
    proof
      fix q assume "q \<in> ?L"
      then obtain d where d: "d \<in> set (fst (scanEntries opts ig p es))" "q \<in> set (dirPaths d)"
        by auto
      from d(1) obtain n c where nc: "d = scanDirectory opts ig (pathJoin p n) c"
        "(n, c) \<in> set es" "\<not> skippedEntry opts ig p n" "isDirNode c"
        unfolding scanEntries_subs by blast
      from d(2) nc(1) IH[OF nc(2)] have "reachable opts ig (pathJoin p n) c q" by blast
      with nc show "q \<in> ?R" by blast
    qed
    show "?R \<subseteq> ?L"
    proof
      fix q assume "q \<in> ?R"
      then obtain n c where nc: "(n, c) \<in> set es" "\<not> skippedEntry opts ig p n" "isDirNode c"
        "reachable opts ig (pathJoin p n) c q" by blast
      from nc(4) IH[OF nc(1)] have "q \<in> set (dirPaths (scanDirectory opts ig (pathJoin p n) c))"
        by blast
      moreover have "scanDirectory opts ig (pathJoin p n) c \<in> set (fst (scanEntries opts ig p es))"
        unfolding scanEntries_subs using nc by blast
      ultimately show "q \<in> ?L" by auto
    qed
  qed
  then show ?case
    unfolding dirPaths_scanDir by (subst reachable_dir) auto
qed (auto simp: reachable_leaf)

lemma reachable_under: "reachable opts ig p node q \<Longrightarrow> under p q"
  by (induction rule: reachable.induct) (auto simp: under_refl dest: under_join)

lemma scan_under: "q \<in> set (dirPaths (scanDirectory opts ig p node)) \<Longrightarrow> under p q"
  using scan_set reachable_under by blast

lemma scanEntries_paths:
  assumes "q \<in> set (concat (map dirPaths (fst (scanEntries opts ig p es))))"
  shows "\<exists>n c. (n, c) \<in> set es \<and> under (pathJoin p n) q"
proof -
  from assms obtain d where d: "d \<in> set (fst (scanEntries opts ig p es))" "q \<in> set (dirPaths d)"
    by auto
  from d(1) obtain n c where nc: "d = scanDirectory opts ig (pathJoin p n) c" "(n, c) \<in> set es"
    unfolding scanEntries_subs by blast
  with d(2) scan_under show ?thesis by blast
qed

lemma scanEntries_distinct:
  assumes "distinct (map fst es)"
    and "\<forall>e \<in> set es. CHR ''/'' \<notin> set (fst e)"
    and "\<forall>e \<in> set es. distinct (dirPaths (scanDirectory opts ig (pathJoin p (fst e)) (snd e)))"
  shows "distinct (concat (map dirPaths (fst (scanEntries opts ig p es))))"
  using assms
proof (induction es)
  case Nil
  then show ?case by simp
next
  case (Cons e es)
  obtain n c where e: "e = (n, c)" by (cases e)
  have rest: "distinct (concat (map dirPaths (fst (scanEntries opts ig p es))))"
    using Cons by simp
  have disj: "set (dirPaths (scanDirectory opts ig (pathJoin p n) c)) \<inter>
              set (concat (map dirPaths (fst (scanEntries opts ig p es)))) = {}"
  proof (rule ccontr)
    assume "\<not> ?thesis"
    then obtain q where q1: "q \<in> set (dirPaths (scanDirectory opts ig (pathJoin p n) c))"
      and q2: "q \<in> set (concat (map dirPaths (fst (scanEntries opts ig p es))))" by blast
    from q1 have u1: "under (pathJoin p n) q" by (rule scan_under)
    from scanEntries_paths[OF q2] obtain n2 c2 where n2: "(n2, c2) \<in> set es" "under (pathJoin p n2) q"
      by blast
    have "n = n2" using under_siblings[OF u1 n2(2)] Cons.prems(2) e n2(1) by fastforce
    with n2(1) Cons.prems(1) e show False by force
  qed
  show ?case unfolding e scanEntries_Cons_fst using rest disj Cons.prems(3) e by simp
qed

lemma scan_distinct: "wfFs node \<Longrightarrow> distinct (dirPaths (scanDirectory opts ig p node))"
proof (induction node arbitrary: p)
  case (FsDir es)
  have IH: "\<And>e p. e \<in> set es \<Longrightarrow> distinct (dirPaths (scanDirectory opts ig p (snd e)))"
  proof -
    fix e p assume "e \<in> set es"
    moreover from \<open>e \<in> set es\<close> FsDir.prems have "wfFs (snd e)" by auto
    moreover have "snd e \<in> Basic_BNFs.snds e" by (cases e) simp
    ultimately show "distinct (dirPaths (scanDirectory opts ig p (snd e)))"
      using FsDir.IH by blast
  qed
  have d: "distinct (concat (map dirPaths (fst (scanEntries opts ig p es))))"
    using FsDir.prems IH by (intro scanEntries_distinct) auto
  have "p \<notin> set (concat (map dirPaths (fst (scanEntries opts ig p es))))"
    using scanEntries_paths under_join_neq by blast
  with d show ?case unfolding dirPaths_scanDir by simp
qed simp_all

lemma indexOf_mid: "x \<notin> set xs \<Longrightarrow> indexOf (xs @ x # ys) x = length xs"
  by (simp add: indexOf_def takeWhile_append)

lemma path_last: "\<exists>pre. dirPaths d = pre @ [path d]"
  by (cases d) simp

lemma allNodes_segment:
  "D \<in> set (allNodes t) \<Longrightarrow> \<exists>pre post. dirPaths t = pre @ dirPaths D @ post"
proof (induction t)
  case (Directory p n subs fs lf)
  show ?case
  proof (cases "D = Directory p n subs fs lf")
    case True
    then show ?thesis by (metis append_Nil append_Nil2)
  next
    case False
    with Directory.prems obtain s where s: "s \<in> set subs" "D \<in> set (allNodes s)" by auto
    from Directory.IH[OF s] obtain pre post where pp: "dirPaths s = pre @ dirPaths D @ post" by blast
    from s(1) obtain a b where ab: "subs = a @ s # b" by (meson split_list)
    show ?thesis unfolding ab using pp by (simp) (metis append.assoc)
  qed
qed

lemma child_before_parent:
  assumes "S \<in> set (subdirectories D)"
  shows "\<exists>a b. dirPaths D = a @ [path S] @ b @ [path D]"
proof -
  obtain p n subs fs lf where D: "D = Directory p n subs fs lf" by (cases D)
  from assms D obtain x y where xy: "subs = x @ S # y" by (metis Directory.sel(3) split_list)
  obtain pre where pre: "dirPaths S = pre @ [path S]" using path_last by blast
  have "dirPaths D = (concat (map dirPaths x) @ pre) @ [path S] @ concat (map dirPaths y) @ [path D]"
    unfolding D xy using pre by simp
  then show ?thesis by blast
qed

lemma index_order:
  assumes "distinct (dirPaths t)" "D \<in> set (allNodes t)" "S \<in> set (subdirectories D)"
  shows "indexOf (dirPaths t) (path S) < indexOf (dirPaths t) (path D)"
proof -
  from allNodes_segment[OF assms(2)] obtain pre post where pp: "dirPaths t = pre @ dirPaths D @ post"
    by blast
  from child_before_parent[OF assms(3)] obtain a b where ab: "dirPaths D = a @ [path S] @ b @ [path D]"
    by blast
  have L: "dirPaths t = (pre @ a) @ path S # (b @ path D # post)" using pp ab by simp
  have L2: "dirPaths t = (pre @ a @ path S # b) @ path D # post" using pp ab by simp
  have "indexOf (dirPaths t) (path S) = length (pre @ a)"
    using assms(1) unfolding L by (subst indexOf_mid) auto
  moreover have "indexOf (dirPaths t) (path D) = length (pre @ a @ path S # b)"
    using assms(1) unfolding L2 by (subst indexOf_mid) auto
  ultimately show ?thesis by simp
qed


lemma dirPaths_allNodes: "set (dirPaths t) = path ` set (allNodes t)"
  by (induction t) auto

text \<open>
  C1. On a file system tree whose directory listings have distinct names without
  separators, the list returned by \<open>createBottomUpOrder\<close> has no duplicates, its elements
  are exactly the paths of the directories reachable from the root through entries that are
  neither ignored nor hidden (which are the paths of the directories of the scanned tree),
  and for every directory \<open>D\<close> of the scanned tree and every subdirectory \<open>S\<close> of \<open>D\<close> the
  index of \<open>S\<close> in the list is strictly less than the index of \<open>D\<close>.
\<close>

theorem createBottomUpOrder_bottom_up:
  assumes "wfFs root"
  shows "distinct (createBottomUpOrder opts shouldIgnore rootDir root) \<and>
         set (createBottomUpOrder opts shouldIgnore rootDir root) =
           {q. reachable opts shouldIgnore rootDir root q} \<and>
         set (createBottomUpOrder opts shouldIgnore rootDir root) =
           path ` set (allNodes (scan opts shouldIgnore rootDir root)) \<and>
         (\<forall>D \<in> set (allNodes (scan opts shouldIgnore rootDir root)).
            \<forall>S \<in> set (subdirectories D).
              indexOf (createBottomUpOrder opts shouldIgnore rootDir root) (path S) <
              indexOf (createBottomUpOrder opts shouldIgnore rootDir root) (path D))"
proof -
  let ?t = "scan opts shouldIgnore rootDir root"
  have d: "distinct (dirPaths ?t)"
    unfolding scan_def using assms by (rule scan_distinct)
  have eq: "createBottomUpOrder opts shouldIgnore rootDir root = dirPaths ?t"
    unfolding createBottomUpOrder_def using d by (rule bottomUpOrderOf_postorder)
  have r: "set (dirPaths ?t) = {q. reachable opts shouldIgnore rootDir root q}"
    unfolding scan_def by (rule scan_set)
  show ?thesis
    unfolding eq using d r dirPaths_allNodes[of ?t] index_order[OF d] by blast
qed

theorem createBottomUpOrder_bottom_up_witness:
  "wfFs exampleTree \<and>
   createBottomUpOrder crawlerOptions (\<lambda>p. p = ''/repo/node_modules'') ''/repo'' exampleTree =
     [''/repo/src/crawler'', ''/repo/src/tools'', ''/repo/src'', ''/repo''] \<and>
   distinct (createBottomUpOrder crawlerOptions (\<lambda>p. p = ''/repo/node_modules'') ''/repo'' exampleTree) \<and>
   set (createBottomUpOrder crawlerOptions (\<lambda>p. p = ''/repo/node_modules'') ''/repo'' exampleTree) =
     {q. reachable crawlerOptions (\<lambda>p. p = ''/repo/node_modules'') ''/repo'' exampleTree q}"
proof -
  have wf: "wfFs exampleTree"
    by (simp add: exampleTree_def)
  have ev: "createBottomUpOrder crawlerOptions (\<lambda>p. p = ''/repo/node_modules'') ''/repo'' exampleTree =
     [''/repo/src/crawler'', ''/repo/src/tools'', ''/repo/src'', ''/repo'']"
    by (simp add: createBottomUpOrder_def bottomUpOrderOf_def scan_def exampleTree_def
        crawlerOptions_def pathJoin_def startsWithDot_def basename_def)
  from createBottomUpOrder_bottom_up[OF wf] wf ev show ?thesis by metis
qed


section \<open>The analyzer\<close>

lemma processFile_analyzed:
  "analyzedFiles (processFile cfg fs p r) =
     analyzedFiles r @ (case analyzable cfg fs p of Some af \<Rightarrow> [af] | None \<Rightarrow> [])"
  by (simp add: processFile_def analyzable_def pushExcluded_def Let_def split: sum.splits)

lemma processFile_totalSize:
  "totalSize (processFile cfg fs p r) =
     totalSize r + (case analyzable cfg fs p of Some af \<Rightarrow> sizeOnDisk fs p | None \<Rightarrow> 0)"
  by (simp add: processFile_def analyzable_def pushExcluded_def sizeOnDisk_def Let_def split: sum.splits)

lemma processFile_limited:
  "limited (processFile cfg fs p r) = limited r" "limitReason (processFile cfg fs p r) = limitReason r"
  by (simp_all add: processFile_def pushExcluded_def Let_def split: sum.splits)

lemma processFile_excludedPaths:
  "map excludedPath (excludedFiles (processFile cfg fs p r)) =
     map excludedPath (excludedFiles r) @ (case analyzable cfg fs p of Some af \<Rightarrow> [] | None \<Rightarrow> [p])"
  by (simp add: processFile_def analyzable_def pushExcluded_def Let_def split: sum.splits)

lemma processFile_countReason:
  "filter (\<lambda>e. reason e = countLimitText) (excludedFiles (processFile cfg fs p r)) =
   filter (\<lambda>e. reason e = countLimitText) (excludedFiles r)"
  by (simp add: processFile_def pushExcluded_def countLimitText_def Let_def split: sum.splits)

lemma analyzable_size: "analyzable cfg fs p = Some af \<Longrightarrow> sizeOnDisk fs p \<le> maxFileSizeKb cfg * 1024"
  by (auto simp: analyzable_def sizeOnDisk_def split: sum.splits if_splits)

lemma processFiles_Nil: "processFiles cfg fs [] r = r"
  by (simp add: processFiles_def)

lemma processFiles_Cons: "processFiles cfg fs (p # xs) r = processFiles cfg fs xs (processFile cfg fs p r)"
  by (simp add: processFiles_def)

lemma processFiles_append:
  "processFiles cfg fs (xs @ ys) r = processFiles cfg fs ys (processFiles cfg fs xs r)"
  by (simp add: processFiles_def)

lemma processFiles_analyzed:
  "analyzedFiles (processFiles cfg fs xs r) = analyzedFiles r @ List.map_filter (analyzable cfg fs) xs"
  by (induction xs arbitrary: r)
     (auto simp: processFiles_Nil processFiles_Cons processFile_analyzed List.map_filter_simps split: option.splits)

lemma processFiles_totalSize:
  "totalSize (processFiles cfg fs xs r) =
     totalSize r + sum_list (map (sizeOnDisk fs) (filter (\<lambda>p. analyzable cfg fs p \<noteq> None) xs))"
  by (induction xs arbitrary: r)
     (auto simp: processFiles_Nil processFiles_Cons processFile_totalSize split: option.splits)

lemma processFiles_limited:
  "limited (processFiles cfg fs xs r) = limited r"
  "limitReason (processFiles cfg fs xs r) = limitReason r"
  by (induction xs arbitrary: r) (simp_all add: processFiles_Nil processFiles_Cons processFile_limited)

lemma processFiles_excludedPaths:
  "map excludedPath (excludedFiles (processFiles cfg fs xs r)) =
     map excludedPath (excludedFiles r) @ filter (\<lambda>p. analyzable cfg fs p = None) xs"
  by (induction xs arbitrary: r)
     (auto simp: processFiles_Nil processFiles_Cons processFile_excludedPaths split: option.splits)

lemma processFiles_countReason:
  "filter (\<lambda>e. reason e = countLimitText) (excludedFiles (processFiles cfg fs xs r)) =
   filter (\<lambda>e. reason e = countLimitText) (excludedFiles r)"
  by (induction xs arbitrary: r) (simp_all add: processFiles_Nil processFiles_Cons processFile_countReason)

lemma countLimitLoop_append:
  "countLimitLoop cfg fs L (xs @ ys) r = countLimitLoop cfg fs L ys (countLimitLoop cfg fs L xs r)"
  by (induction xs arbitrary: r) simp_all

lemma countLimitLoop_inside:
  "\<forall>f \<in> set xs. f \<in> set L \<Longrightarrow> countLimitLoop cfg fs L xs r = processFiles cfg fs xs r"
  by (induction xs arbitrary: r) (simp_all add: processFiles_Nil processFiles_Cons)

lemma countLimitLoop_outside:
  "\<forall>f \<in> set xs. f \<notin> set L \<Longrightarrow>
     countLimitLoop cfg fs L xs r =
       r\<lparr>excludedFiles := excludedFiles r @
            map (\<lambda>f. \<lparr>excludedPath = f, reason = countLimitText\<rparr>) xs\<rparr>"
  by (induction xs arbitrary: r) (simp_all add: pushExcluded_def countLimitText_def)

lemma countLimitLoop_distinct:
  assumes "distinct cs"
  shows "countLimitLoop cfg fs (take n cs) cs r =
     (processFiles cfg fs (take n cs) r)
       \<lparr>excludedFiles := excludedFiles (processFiles cfg fs (take n cs) r) @
            map (\<lambda>f. \<lparr>excludedPath = f, reason = countLimitText\<rparr>) (drop n cs)\<rparr>"
proof -
  have "set (take n cs) \<inter> set (drop n cs) = {}"
    using assms by (metis append_take_drop_id distinct_append)
  then have out: "\<forall>f \<in> set (drop n cs). f \<notin> set (take n cs)" by auto
  have "countLimitLoop cfg fs (take n cs) (take n cs @ drop n cs) r =
        countLimitLoop cfg fs (take n cs) (drop n cs) (processFiles cfg fs (take n cs) r)"
    unfolding countLimitLoop_append by (simp add: countLimitLoop_inside)
  then have "countLimitLoop cfg fs (take n cs) cs r =
        countLimitLoop cfg fs (take n cs) (drop n cs) (processFiles cfg fs (take n cs) r)"
    by simp
  then show ?thesis using countLimitLoop_outside[OF out] by simp
qed

lemma analyzeFiles_count_branch:
  assumes "distinct filePaths"
    and "maxFilesPerDirectory cfg < length (filter (isCodeFile cfg) filePaths)"
  shows "limited (analyzeFiles cfg fs dir filePaths)"
    and "limitReason (analyzeFiles cfg fs dir filePaths) =
           Some (countLimitReason (length (filter (isCodeFile cfg) filePaths)) (maxFilesPerDirectory cfg))"
    and "analyzedFiles (analyzeFiles cfg fs dir filePaths) =
           List.map_filter (analyzable cfg fs) (take (maxFilesPerDirectory cfg) (filter (isCodeFile cfg) filePaths))"
    and "filter (\<lambda>e. reason e = countLimitText) (excludedFiles (analyzeFiles cfg fs dir filePaths)) =
           map (\<lambda>f. \<lparr>excludedPath = f, reason = countLimitText\<rparr>)
               (drop (maxFilesPerDirectory cfg) (filter (isCodeFile cfg) filePaths))"
    and "totalSize (analyzeFiles cfg fs dir filePaths) =
           sum_list (map (sizeOnDisk fs) (filter (\<lambda>p. analyzable cfg fs p \<noteq> None)
              (take (maxFilesPerDirectory cfg) (filter (isCodeFile cfg) filePaths))))"
proof -
  let ?cs = "filter (isCodeFile cfg) filePaths"
  let ?n = "maxFilesPerDirectory cfg"
  let ?r0 = "\<lparr> analyzedFiles = [], excludedFiles = markdownExcluded filePaths,
                limited = True, totalSize = 0,
                limitReason = Some (countLimitReason (length ?cs) ?n) \<rparr>"
  have d: "distinct ?cs" using assms(1) by simp
  have md: "filter (\<lambda>e. reason e = countLimitText) (markdownExcluded filePaths) = []"
    by (simp add: markdownExcluded_def countLimitText_def filter_map o_def)
  have eq: "analyzeFiles cfg fs dir filePaths =
     (processFiles cfg fs (take ?n ?cs) ?r0)
       \<lparr>excludedFiles := excludedFiles (processFiles cfg fs (take ?n ?cs) ?r0) @
            map (\<lambda>f. \<lparr>excludedPath = f, reason = countLimitText\<rparr>) (drop ?n ?cs)\<rparr>"
    using assms(2) by (simp add: analyzeFiles_def Let_def countLimitLoop_distinct[OF d])
  show "limited (analyzeFiles cfg fs dir filePaths)"
    unfolding eq by (simp add: processFiles_limited)
  show "limitReason (analyzeFiles cfg fs dir filePaths) = Some (countLimitReason (length ?cs) ?n)"
    unfolding eq by (simp add: processFiles_limited)
  show "analyzedFiles (analyzeFiles cfg fs dir filePaths) = List.map_filter (analyzable cfg fs) (take ?n ?cs)"
    unfolding eq by (simp add: processFiles_analyzed)
  show "filter (\<lambda>e. reason e = countLimitText) (excludedFiles (analyzeFiles cfg fs dir filePaths)) =
           map (\<lambda>f. \<lparr>excludedPath = f, reason = countLimitText\<rparr>) (drop ?n ?cs)"
    unfolding eq by (simp add: processFiles_countReason md filter_map o_def)
  show "totalSize (analyzeFiles cfg fs dir filePaths) =
           sum_list (map (sizeOnDisk fs) (filter (\<lambda>p. analyzable cfg fs p \<noteq> None) (take ?n ?cs)))"
    unfolding eq by (simp add: processFiles_totalSize)
qed

lemma sizeLimitLoop_char:
  "(sizeLimitLoop cfg fs xs r = processFiles cfg fs xs r \<and>
      (\<forall>j. 0 < j \<and> j \<le> length xs \<longrightarrow> totalSize (processFiles cfg fs (take j xs) r) \<le> maxTotalSizeOf cfg))
   \<or> (\<exists>k < length xs.
        (\<forall>j. 0 < j \<and> j \<le> k \<longrightarrow> totalSize (processFiles cfg fs (take j xs) r) \<le> maxTotalSizeOf cfg) \<and>
        maxTotalSizeOf cfg < totalSize (processFiles cfg fs (take (Suc k) xs) r) \<and>
        sizeLimitLoop cfg fs xs r = stopAt cfg (processFiles cfg fs (take (Suc k) xs) r))"
proof (induction xs arbitrary: r)
  case Nil
  then show ?case by (simp add: processFiles_Nil)
next
  case (Cons p xs)
  let ?r' = "processFile cfg fs p r"
  show ?case
  proof (cases "maxTotalSizeOf cfg < totalSize ?r'")
    case True
    have "sizeLimitLoop cfg fs (p # xs) r = stopAt cfg (processFiles cfg fs (take (Suc 0) (p # xs)) r)"
      using True by (simp add: stopAt_def processFiles_Cons processFiles_Nil Let_def)
    moreover have "maxTotalSizeOf cfg < totalSize (processFiles cfg fs (take (Suc 0) (p # xs)) r)"
      using True by (simp add: processFiles_Cons processFiles_Nil)
    ultimately show ?thesis by (intro disjI2 exI[of _ 0]) simp
  next
    case False
    then have step: "sizeLimitLoop cfg fs (p # xs) r = sizeLimitLoop cfg fs xs ?r'"
      by (simp add: Let_def)
    have tk: "\<And>j. 0 < j \<Longrightarrow> processFiles cfg fs (take j (p # xs)) r = processFiles cfg fs (take (j - 1) xs) ?r'"
      by (case_tac j) (simp_all add: processFiles_Cons)
    from Cons.IH[of ?r'] show ?thesis
    proof
      assume a: "sizeLimitLoop cfg fs xs ?r' = processFiles cfg fs xs ?r' \<and>
        (\<forall>j. 0 < j \<and> j \<le> length xs \<longrightarrow> totalSize (processFiles cfg fs (take j xs) ?r') \<le> maxTotalSizeOf cfg)"
      have "\<forall>j. 0 < j \<and> j \<le> length (p # xs) \<longrightarrow>
              totalSize (processFiles cfg fs (take j (p # xs)) r) \<le> maxTotalSizeOf cfg"
      proof (intro allI impI)
        fix j assume j: "0 < j \<and> j \<le> length (p # xs)"
        show "totalSize (processFiles cfg fs (take j (p # xs)) r) \<le> maxTotalSizeOf cfg"
        proof (cases "j = 1")
          case True
          then show ?thesis using False by (simp add: processFiles_Cons processFiles_Nil)
        next
          case False
          with j have "0 < j - 1 \<and> j - 1 \<le> length xs" by auto
          with a have "totalSize (processFiles cfg fs (take (j - 1) xs) ?r') \<le> maxTotalSizeOf cfg" by blast
          then show ?thesis using tk j by simp
        qed
      qed
      with a step show ?thesis by (simp add: processFiles_Cons)
    next
      assume "\<exists>k < length xs.
        (\<forall>j. 0 < j \<and> j \<le> k \<longrightarrow> totalSize (processFiles cfg fs (take j xs) ?r') \<le> maxTotalSizeOf cfg) \<and>
        maxTotalSizeOf cfg < totalSize (processFiles cfg fs (take (Suc k) xs) ?r') \<and>
        sizeLimitLoop cfg fs xs ?r' = stopAt cfg (processFiles cfg fs (take (Suc k) xs) ?r')"
      then obtain k where k: "k < length xs"
        "\<forall>j. 0 < j \<and> j \<le> k \<longrightarrow> totalSize (processFiles cfg fs (take j xs) ?r') \<le> maxTotalSizeOf cfg"
        "maxTotalSizeOf cfg < totalSize (processFiles cfg fs (take (Suc k) xs) ?r')"
        "sizeLimitLoop cfg fs xs ?r' = stopAt cfg (processFiles cfg fs (take (Suc k) xs) ?r')"
        by blast
      have b1: "\<forall>j. 0 < j \<and> j \<le> Suc k \<longrightarrow>
              totalSize (processFiles cfg fs (take j (p # xs)) r) \<le> maxTotalSizeOf cfg"
      proof (intro allI impI)
        fix j assume j: "0 < j \<and> j \<le> Suc k"
        show "totalSize (processFiles cfg fs (take j (p # xs)) r) \<le> maxTotalSizeOf cfg"
        proof (cases "j = 1")
          case True
          then show ?thesis using False by (simp add: processFiles_Cons processFiles_Nil)
        next
          case False
          with j have "0 < j - 1 \<and> j - 1 \<le> k" by auto
          with k(2) have "totalSize (processFiles cfg fs (take (j - 1) xs) ?r') \<le> maxTotalSizeOf cfg" by blast
          then show ?thesis using tk j by simp
        qed
      qed
      have b2: "maxTotalSizeOf cfg < totalSize (processFiles cfg fs (take (Suc (Suc k)) (p # xs)) r)"
        using k(3) by (simp add: processFiles_Cons)
      have b3: "sizeLimitLoop cfg fs (p # xs) r = stopAt cfg (processFiles cfg fs (take (Suc (Suc k)) (p # xs)) r)"
        using k(4) step by (simp add: processFiles_Cons)
      show ?thesis using k(1) b1 b2 b3 by (intro disjI2 exI[of _ "Suc k"]) simp
    qed
  qed
qed

lemma processFiles_take_Suc:
  "k < length xs \<Longrightarrow>
   processFiles cfg fs (take (Suc k) xs) r = processFile cfg fs (xs ! k) (processFiles cfg fs (take k xs) r)"
  by (simp add: take_Suc_conv_app_nth processFiles_append processFiles_Cons processFiles_Nil)

lemma exceeding_file_retained:
  assumes "k < length xs"
    and "totalSize (processFiles cfg fs (take k xs) r) \<le> m"
    and "m < totalSize (processFiles cfg fs (take (Suc k) xs) r)"
  shows "\<exists>af. analyzable cfg fs (xs ! k) = Some af \<and>
          analyzedFiles (processFiles cfg fs (take (Suc k) xs) r) =
            analyzedFiles (processFiles cfg fs (take k xs) r) @ [af]"
  using assms
  by (cases "analyzable cfg fs (xs ! k)")
     (simp_all add: processFiles_take_Suc processFile_totalSize processFile_analyzed)

lemma sum_sizes_bound:
  "sum_list (map (sizeOnDisk fs) (filter (\<lambda>p. analyzable cfg fs p \<noteq> None) xs))
     \<le> length xs * (maxFileSizeKb cfg * 1024)"
proof (induction xs)
  case Nil
  then show ?case by simp
next
  case (Cons p xs)
  then show ?case using analyzable_size[of cfg fs p] by (cases "analyzable cfg fs p") auto
qed

lemma analyzeFiles_size_branch_unreachable:
  assumes "length (filter (isCodeFile cfg) filePaths) \<le> maxFilesPerDirectory cfg"
  shows "\<not> limited (analyzeFiles cfg fs dir filePaths)"
    and "analyzeFiles cfg fs dir filePaths =
           processFiles cfg fs (filter (isCodeFile cfg) filePaths)
             \<lparr> analyzedFiles = [], excludedFiles = markdownExcluded filePaths,
               limited = False, totalSize = 0, limitReason = None \<rparr>"
proof -
  let ?cs = "filter (isCodeFile cfg) filePaths"
  let ?r0 = "\<lparr> analyzedFiles = [], excludedFiles = markdownExcluded filePaths,
               limited = False, totalSize = 0, limitReason = None \<rparr>"
  have a: "analyzeFiles cfg fs dir filePaths = sizeLimitLoop cfg fs ?cs ?r0"
    using assms by (simp add: analyzeFiles_def Let_def)
  have bound: "\<And>j. totalSize (processFiles cfg fs (take j ?cs) ?r0) \<le> maxTotalSizeOf cfg"
  proof -
    fix j
    have "totalSize (processFiles cfg fs (take j ?cs) ?r0) \<le> length (take j ?cs) * (maxFileSizeKb cfg * 1024)"
      using sum_sizes_bound[of fs cfg "take j ?cs"] by (simp add: processFiles_totalSize)
    also have "\<dots> \<le> maxFilesPerDirectory cfg * (maxFileSizeKb cfg * 1024)"
      using assms by (intro mult_le_mono1) simp
    finally show "totalSize (processFiles cfg fs (take j ?cs) ?r0) \<le> maxTotalSizeOf cfg"
      by (simp add: maxTotalSizeOf_def mult.assoc)
  qed
  from sizeLimitLoop_char[of cfg fs ?cs ?r0] bound
  have b: "sizeLimitLoop cfg fs ?cs ?r0 = processFiles cfg fs ?cs ?r0"
    by (metis not_less)
  show "analyzeFiles cfg fs dir filePaths = processFiles cfg fs ?cs ?r0" using a b by simp
  then show "\<not> limited (analyzeFiles cfg fs dir filePaths)" by (simp add: processFiles_limited)
qed

lemmas path_eval = extname_def basename_def toLowerCase_def lowerChar_def isCodeFile_def Let_def

lemma cfgSmall_limits:
  "maxFileSizeKb cfgSmall = 1" "maxFilesPerDirectory cfgSmall = 2" "maxTotalSizeOf cfgSmall = 2048"
  by (simp_all add: cfgSmall_def maxTotalSizeOf_def)

text \<open>
  C5 (amended). When the file paths are pairwise distinct (as the entries of a directory
  are) and the number of candidates (code files, markdown excluded) exceeds
  \<open>maxFilesPerDirectory\<close>, the result is limited, its reason cites the number of
  candidates and the ceiling, the analyzed files are, in order, those of the first
  ceiling-many candidates that can be read and are within the per-file size limit, the
  entries excluded for the file count are exactly the candidates beyond the ceiling, one
  each and in order, and the total size is the sum over the analyzed files: it is never
  compared with the aggregate ceiling.
\<close>

theorem analyzeFiles_count_limit:
  assumes "distinct filePaths"
    and "maxFilesPerDirectory cfg < length (filter (isCodeFile cfg) filePaths)"
  shows "limited (analyzeFiles cfg fs dir filePaths) \<and>
         limitReason (analyzeFiles cfg fs dir filePaths) =
           Some (countLimitReason (length (filter (isCodeFile cfg) filePaths)) (maxFilesPerDirectory cfg)) \<and>
         analyzedFiles (analyzeFiles cfg fs dir filePaths) =
           List.map_filter (analyzable cfg fs)
             (take (maxFilesPerDirectory cfg) (filter (isCodeFile cfg) filePaths)) \<and>
         filter (\<lambda>e. reason e = countLimitText) (excludedFiles (analyzeFiles cfg fs dir filePaths)) =
           map (\<lambda>f. \<lparr>excludedPath = f, reason = countLimitText\<rparr>)
               (drop (maxFilesPerDirectory cfg) (filter (isCodeFile cfg) filePaths)) \<and>
         totalSize (analyzeFiles cfg fs dir filePaths) =
           sum_list (map (sizeOnDisk fs) (filter (\<lambda>p. analyzable cfg fs p \<noteq> None)
              (take (maxFilesPerDirectory cfg) (filter (isCodeFile cfg) filePaths))))"
  using analyzeFiles_count_branch[OF assms] by blast

lemma cs_small: "filter (isCodeFile cfgSmall) [''/d/a.ts'', ''/d/b.ts'', ''/d/c.js'', ''/d/notes.md''] = [''/d/a.ts'', ''/d/b.ts'', ''/d/c.js'']"
  by (simp add: cfgSmall_def path_eval)

theorem analyzeFiles_count_limit_witness:
  "distinct [''/d/a.ts'', ''/d/b.ts'', ''/d/c.js'', ''/d/notes.md''] \<and>
   maxFilesPerDirectory cfgSmall <
     length (filter (isCodeFile cfgSmall) [''/d/a.ts'', ''/d/b.ts'', ''/d/c.js'', ''/d/notes.md'']) \<and>
   limited (analyzeFiles cfgSmall fsSmall ''/d'' [''/d/a.ts'', ''/d/b.ts'', ''/d/c.js'', ''/d/notes.md'']) \<and>
   limitReason (analyzeFiles cfgSmall fsSmall ''/d'' [''/d/a.ts'', ''/d/b.ts'', ''/d/c.js'', ''/d/notes.md'']) =
     Some ''Too many files (3 > 2)'' \<and>
   filter (\<lambda>e. reason e = countLimitText)
     (excludedFiles (analyzeFiles cfgSmall fsSmall ''/d'' [''/d/a.ts'', ''/d/b.ts'', ''/d/c.js'', ''/d/notes.md''])) =
     [\<lparr>excludedPath = ''/d/c.js'', reason = countLimitText\<rparr>]"
proof -
  have h1: "distinct [''/d/a.ts'', ''/d/b.ts'', ''/d/c.js'', ''/d/notes.md'']" by simp
  have h2: "maxFilesPerDirectory cfgSmall <
     length (filter (isCodeFile cfgSmall) [''/d/a.ts'', ''/d/b.ts'', ''/d/c.js'', ''/d/notes.md''])"
    unfolding cs_small by (simp add: cfgSmall_def)
  have n: "maxFilesPerDirectory cfgSmall = 2" by (simp add: cfgSmall_def)
  have s: "countLimitReason (Suc (Suc (Suc 0))) 2 = ''Too many files (3 > 2)''"
    by (simp add: countLimitReason_def showNat.simps digitChar_def)
  from analyzeFiles_count_limit[OF h1 h2, of fsSmall "''/d''"] h1 h2 show ?thesis
    unfolding cs_small n by (simp add: s)
qed

lemma cs_duplicate:
  "filter (isCodeFile cfgSmall) [''/d/a.ts'', ''/d/b.ts'', ''/d/a.ts''] = [''/d/a.ts'', ''/d/b.ts'', ''/d/a.ts'']"
  by (simp add: cfgSmall_def path_eval)

text \<open>
  C5 as stated fails when a path occurs twice among the candidates: the code keeps the first
  ceiling-many candidates and, for each candidate, asks whether its path occurs among them.
  With a ceiling of 2 and the candidates \<open>a.ts\<close>, \<open>b.ts\<close>, \<open>a.ts\<close> (3 exceeds 2), all
  three are analyzed and none is excluded for the file count.
\<close>

theorem analyzeFiles_duplicate_path_counterexample:
  "maxFilesPerDirectory cfgSmall <
     length (filter (isCodeFile cfgSmall) [''/d/a.ts'', ''/d/b.ts'', ''/d/a.ts'']) \<and>
   map filePath (analyzedFiles (analyzeFiles cfgSmall fsSmall ''/d'' [''/d/a.ts'', ''/d/b.ts'', ''/d/a.ts''])) =
     [''/d/a.ts'', ''/d/b.ts'', ''/d/a.ts''] \<and>
   excludedFiles (analyzeFiles cfgSmall fsSmall ''/d'' [''/d/a.ts'', ''/d/b.ts'', ''/d/a.ts'']) = []"
proof -
  have n: "maxFilesPerDirectory cfgSmall < length [''/d/a.ts'', ''/d/b.ts'', ''/d/a.ts'']"
    by (simp add: cfgSmall_limits)
  have "analyzeFiles cfgSmall fsSmall ''/d'' [''/d/a.ts'', ''/d/b.ts'', ''/d/a.ts''] =
          countLimitLoop cfgSmall fsSmall [''/d/a.ts'', ''/d/b.ts''] [''/d/a.ts'', ''/d/b.ts'', ''/d/a.ts'']
            \<lparr> analyzedFiles = [], excludedFiles = markdownExcluded [''/d/a.ts'', ''/d/b.ts'', ''/d/a.ts''],
              limited = True, totalSize = 0,
              limitReason = Some (countLimitReason (length [''/d/a.ts'', ''/d/b.ts'', ''/d/a.ts'']) 2) \<rparr>"
    unfolding analyzeFiles_def Let_def cs_duplicate using n by (simp add: cfgSmall_limits)
  then show ?thesis
    unfolding cs_duplicate using n
    by (simp add: processFile_def pushExcluded_def fsSmall_def tableFs_def cfgSmall_limits
        markdownExcluded_def path_eval)
qed

lemma cs_P8: "filter (isCodeFile cfgP8) [''/d/a.ts'', ''/d/b.ts'', ''/d/c.ts''] = [''/d/a.ts'', ''/d/b.ts'', ''/d/c.ts'']"
  by (simp add: cfgP8_def path_eval)

lemma showNat_digit: "n < 10 \<Longrightarrow> showNat n = [digitChar n]"
  by (simp add: showNat.simps)

lemma countLimitReason_3_2: "countLimitReason 3 2 = ''Too many files (3 > 2)''"
  by (simp add: countLimitReason_def showNat_digit digitChar_def)

lemma analyzable_readable:
  "statSync fs p = Inr st \<Longrightarrow> statSize st \<le> maxFileSizeKb cfg * 1024 \<Longrightarrow> readFileSync fs p = Inr text \<Longrightarrow>
   analyzable cfg fs p = Some \<lparr>filePath = p, fileContent = text, extension = toLowerCase (extname p)\<rparr>"
  by (simp add: analyzable_def)

text \<open>
  C6 (amended). With a per-file ceiling of 10 KB, a file-count ceiling of 2 and three
  distinct candidates of 9 KB each, the result is limited by the file-count branch: the
  reason is \<open>Too many files (3 > 2)\<close>, the first two candidates are analyzed (18432
  bytes), and the third is excluded for the file count.
\<close>

theorem analyzeFiles_three_files_count_branch:
  assumes "maxFileSizeKb cfg = 10" and "maxFilesPerDirectory cfg = 2"
    and "distinct filePaths"
    and "filter (isCodeFile cfg) filePaths = [a, b, c]"
    and "statSync fs a = Inr sa" "statSize sa = 9216" "readFileSync fs a = Inr ta"
    and "statSync fs b = Inr sb" "statSize sb = 9216" "readFileSync fs b = Inr tb"
    and "statSync fs c = Inr sc" "statSize sc = 9216" "readFileSync fs c = Inr tc"
  shows "limited (analyzeFiles cfg fs dir filePaths) \<and>
         limitReason (analyzeFiles cfg fs dir filePaths) = Some ''Too many files (3 > 2)'' \<and>
         length (analyzedFiles (analyzeFiles cfg fs dir filePaths)) = 2 \<and>
         map filePath (analyzedFiles (analyzeFiles cfg fs dir filePaths)) = [a, b] \<and>
         filter (\<lambda>e. reason e = countLimitText) (excludedFiles (analyzeFiles cfg fs dir filePaths)) =
           [\<lparr>excludedPath = c, reason = countLimitText\<rparr>] \<and>
         totalSize (analyzeFiles cfg fs dir filePaths) = 18432"
proof -
  have lim: "maxFilesPerDirectory cfg < length (filter (isCodeFile cfg) filePaths)"
    using assms(2,4) by simp
  have aa: "analyzable cfg fs a = Some \<lparr>filePath = a, fileContent = ta, extension = toLowerCase (extname a)\<rparr>"
    using assms(1,5,6,7) by (simp add: analyzable_def)
  have ab: "analyzable cfg fs b = Some \<lparr>filePath = b, fileContent = tb, extension = toLowerCase (extname b)\<rparr>"
    using assms(1,8,9,10) by (simp add: analyzable_def)
  have sz: "sizeOnDisk fs a = 9216" "sizeOnDisk fs b = 9216"
    using assms(5,6,8,9) by (simp_all add: sizeOnDisk_def)
  note br = analyzeFiles_count_branch[OF assms(3) lim, of fs dir]
  show ?thesis
    using br unfolding assms(2,4)
    by (simp add: List.map_filter_simps aa ab sz countLimitReason_3_2 numeral_3_eq_3[symmetric])
qed

lemma fsP8_stat:
  "statSync fsP8 ''/d/a.ts'' = Inr \<lparr>isDirectory = False, statSize = 9216\<rparr>"
  "statSync fsP8 ''/d/b.ts'' = Inr \<lparr>isDirectory = False, statSize = 9216\<rparr>"
  "statSync fsP8 ''/d/c.ts'' = Inr \<lparr>isDirectory = False, statSize = 9216\<rparr>"
  "readFileSync fsP8 ''/d/a.ts'' = Inr ''A''"
  "readFileSync fsP8 ''/d/b.ts'' = Inr ''B''"
  "readFileSync fsP8 ''/d/c.ts'' = Inr ''C''"
  by (simp_all add: fsP8_def tableFs_def)

theorem analyzeFiles_three_files_count_branch_witness:
  "maxFileSizeKb cfgP8 = 10 \<and> maxFilesPerDirectory cfgP8 = 2 \<and>
   distinct [''/d/a.ts'', ''/d/b.ts'', ''/d/c.ts''] \<and>
   filter (isCodeFile cfgP8) [''/d/a.ts'', ''/d/b.ts'', ''/d/c.ts''] = [''/d/a.ts'', ''/d/b.ts'', ''/d/c.ts''] \<and>
   limited (analyzeFiles cfgP8 fsP8 ''/d'' [''/d/a.ts'', ''/d/b.ts'', ''/d/c.ts'']) \<and>
   limitReason (analyzeFiles cfgP8 fsP8 ''/d'' [''/d/a.ts'', ''/d/b.ts'', ''/d/c.ts'']) =
     Some ''Too many files (3 > 2)'' \<and>
   length (analyzedFiles (analyzeFiles cfgP8 fsP8 ''/d'' [''/d/a.ts'', ''/d/b.ts'', ''/d/c.ts''])) = 2"
proof -
  have h1: "maxFileSizeKb cfgP8 = 10" and h2: "maxFilesPerDirectory cfgP8 = 2"
    by (simp_all add: cfgP8_def)
  have h3: "distinct [''/d/a.ts'', ''/d/b.ts'', ''/d/c.ts'']" by simp
  have sz: "statSize \<lparr>isDirectory = False, statSize = 9216\<rparr> = 9216" by simp
  from analyzeFiles_three_files_count_branch[OF h1 h2 h3 cs_P8
         fsP8_stat(1) sz fsP8_stat(4) fsP8_stat(2) sz fsP8_stat(5) fsP8_stat(3) sz fsP8_stat(6), of "''/d''"]
  show ?thesis using h1 h2 h3 cs_P8 by blast
qed

text \<open>
  C6 as stated fails: on three files of 9 KB with ceilings 10 KB and 2, the result is not
  limited with the reason of the aggregate-size branch.
\<close>

theorem analyzeFiles_P8_not_size_branch:
  "\<not> (limited (analyzeFiles cfgP8 fsP8 ''/d'' [''/d/a.ts'', ''/d/b.ts'', ''/d/c.ts'']) \<and>
      limitReason (analyzeFiles cfgP8 fsP8 ''/d'' [''/d/a.ts'', ''/d/b.ts'', ''/d/c.ts'']) =
        Some (sizeLimitReason
               (totalSize (analyzeFiles cfgP8 fsP8 ''/d'' [''/d/a.ts'', ''/d/b.ts'', ''/d/c.ts'']))
               (maxTotalSizeOf cfgP8)) \<and>
      length (analyzedFiles (analyzeFiles cfgP8 fsP8 ''/d'' [''/d/a.ts'', ''/d/b.ts'', ''/d/c.ts''])) = 2)"
proof -
  have "limitReason (analyzeFiles cfgP8 fsP8 ''/d'' [''/d/a.ts'', ''/d/b.ts'', ''/d/c.ts'']) =
        Some ''Too many files (3 > 2)''"
    using analyzeFiles_count_branch(2)[of "[''/d/a.ts'', ''/d/b.ts'', ''/d/c.ts'']" cfgP8 fsP8 "''/d''"]
    unfolding cs_P8 by (simp add: cfgP8_def countLimitReason_3_2 numeral_3_eq_3[symmetric])
  then show ?thesis by (simp add: sizeLimitReason_def)
qed

lemma processFiles_runningTotal:
  "totalSize (processFiles cfg fs xs r) = runningTotal cfg fs r xs"
  by (simp add: processFiles_totalSize runningTotal_def)

lemma map_filter_snoc:
  "List.map_filter f (xs @ [x]) = List.map_filter f xs @ (case f x of None \<Rightarrow> [] | Some y \<Rightarrow> [y])"
  by (induction xs) (simp_all add: List.map_filter_simps split: option.splits)

text \<open>
  The loop over the candidates, entered with any result \<open>r\<close> whose total is within the
  aggregate ceiling: either every running total stays at or below the ceiling and every
  candidate is processed, or the loop stops at the first candidate whose addition makes the
  total strictly greater than the ceiling; that candidate is analyzed, it is the last of
  \<open>analyzedFiles\<close> and its size is counted, and no later candidate is analyzed or
  excluded.
\<close>

lemma sizeLimitLoop_outcome:
  assumes "totalSize r \<le> maxTotalSizeOf cfg"
  shows "((\<forall>j \<le> length xs. runningTotal cfg fs r (take j xs) \<le> maxTotalSizeOf cfg) \<and>
          limited (sizeLimitLoop cfg fs xs r) = limited r \<and>
          limitReason (sizeLimitLoop cfg fs xs r) = limitReason r \<and>
          analyzedFiles (sizeLimitLoop cfg fs xs r) =
            analyzedFiles r @ List.map_filter (analyzable cfg fs) xs \<and>
          totalSize (sizeLimitLoop cfg fs xs r) = runningTotal cfg fs r xs \<and>
          map excludedPath (excludedFiles (sizeLimitLoop cfg fs xs r)) =
            map excludedPath (excludedFiles r) @ filter (\<lambda>p. analyzable cfg fs p = None) xs)
       \<or> (\<exists>k < length xs. \<exists>af.
            runningTotal cfg fs r (take k xs) \<le> maxTotalSizeOf cfg \<and>
            maxTotalSizeOf cfg < runningTotal cfg fs r (take (Suc k) xs) \<and>
            analyzable cfg fs (xs ! k) = Some af \<and>
            limited (sizeLimitLoop cfg fs xs r) \<and>
            limitReason (sizeLimitLoop cfg fs xs r) =
              Some (sizeLimitReason (totalSize (sizeLimitLoop cfg fs xs r)) (maxTotalSizeOf cfg)) \<and>
            analyzedFiles (sizeLimitLoop cfg fs xs r) =
              analyzedFiles r @ List.map_filter (analyzable cfg fs) (take k xs) @ [af] \<and>
            totalSize (sizeLimitLoop cfg fs xs r) =
              runningTotal cfg fs r (take k xs) + sizeOnDisk fs (xs ! k) \<and>
            map excludedPath (excludedFiles (sizeLimitLoop cfg fs xs r)) =
              map excludedPath (excludedFiles r) @
              filter (\<lambda>p. analyzable cfg fs p = None) (take k xs))"
proof -
  let ?m = "maxTotalSizeOf cfg"
  from sizeLimitLoop_char[of cfg fs xs r] show ?thesis
  proof
    assume a: "sizeLimitLoop cfg fs xs r = processFiles cfg fs xs r \<and>
      (\<forall>j. 0 < j \<and> j \<le> length xs \<longrightarrow> totalSize (processFiles cfg fs (take j xs) r) \<le> ?m)"
    have all: "\<forall>j \<le> length xs. runningTotal cfg fs r (take j xs) \<le> ?m"
    proof (intro allI impI)
      fix j assume j: "j \<le> length xs"
      show "runningTotal cfg fs r (take j xs) \<le> ?m"
      proof (cases "j = 0")
        case True
        then show ?thesis using assms by (simp add: runningTotal_def)
      next
        case False
        with j a show ?thesis by (simp add: processFiles_runningTotal)
      qed
    qed
    have eq: "sizeLimitLoop cfg fs xs r = processFiles cfg fs xs r" using a by simp
    show ?thesis
      unfolding eq using all
      by (intro disjI1)
         (simp add: processFiles_limited processFiles_analyzed processFiles_runningTotal
            processFiles_excludedPaths)
  next
    assume "\<exists>k < length xs.
        (\<forall>j. 0 < j \<and> j \<le> k \<longrightarrow> totalSize (processFiles cfg fs (take j xs) r) \<le> ?m) \<and>
        ?m < totalSize (processFiles cfg fs (take (Suc k) xs) r) \<and>
        sizeLimitLoop cfg fs xs r = stopAt cfg (processFiles cfg fs (take (Suc k) xs) r)"
    then obtain k where k: "k < length xs"
      "\<forall>j. 0 < j \<and> j \<le> k \<longrightarrow> totalSize (processFiles cfg fs (take j xs) r) \<le> ?m"
      "?m < totalSize (processFiles cfg fs (take (Suc k) xs) r)"
      "sizeLimitLoop cfg fs xs r = stopAt cfg (processFiles cfg fs (take (Suc k) xs) r)"
      by blast
    have before: "totalSize (processFiles cfg fs (take k xs) r) \<le> ?m"
      using k(2) assms by (cases "k = 0") (simp_all add: processFiles_Nil)
    from exceeding_file_retained[OF k(1) before k(3)] obtain af where af:
      "analyzable cfg fs (xs ! k) = Some af" by blast
    have tk: "take (Suc k) xs = take k xs @ [xs ! k]"
      using k(1) by (simp add: take_Suc_conv_app_nth)
    have an: "analyzedFiles (sizeLimitLoop cfg fs xs r) =
                analyzedFiles r @ List.map_filter (analyzable cfg fs) (take k xs) @ [af]"
      unfolding k(4) by (simp add: stopAt_def processFiles_analyzed tk map_filter_snoc af)
    have ts: "totalSize (sizeLimitLoop cfg fs xs r) =
                runningTotal cfg fs r (take k xs) + sizeOnDisk fs (xs ! k)"
      unfolding k(4) by (simp add: stopAt_def processFiles_runningTotal tk runningTotal_def af)
    have ex: "map excludedPath (excludedFiles (sizeLimitLoop cfg fs xs r)) =
                map excludedPath (excludedFiles r) @
                filter (\<lambda>p. analyzable cfg fs p = None) (take k xs)"
      unfolding k(4) by (simp add: stopAt_def processFiles_excludedPaths tk af)
    have lm: "limited (sizeLimitLoop cfg fs xs r)"
      "limitReason (sizeLimitLoop cfg fs xs r) =
         Some (sizeLimitReason (totalSize (sizeLimitLoop cfg fs xs r)) ?m)"
      unfolding k(4) by (simp_all add: stopAt_def)
    have b: "runningTotal cfg fs r (take k xs) \<le> ?m" "?m < runningTotal cfg fs r (take (Suc k) xs)"
      using before k(3) by (simp_all add: processFiles_runningTotal)
    show ?thesis using k(1) b af an ts ex lm by blast
  qed
qed


lemma cs_small2:
  "filter (isCodeFile cfgSmall) [''/d/a.ts'', ''/d/b.ts''] = [''/d/a.ts'', ''/d/b.ts'']"
  by (simp add: cfgSmall_def path_eval)



text \<open>
  Two runs on the example: a total equal to the ceiling (2048 bytes) does not limit the
  result; the loop entered with one byte already counted, which \<open>analyzeFiles\<close> never
  does, stops at the second file, keeps it, and never looks at the third.
\<close>

lemma analyzeFiles_total_at_ceiling:
  "totalSize (analyzeFiles cfgSmall fsSmall ''/d'' [''/d/a.ts'', ''/d/b.ts'']) = maxTotalSizeOf cfgSmall \<and>
   \<not> limited (analyzeFiles cfgSmall fsSmall ''/d'' [''/d/a.ts'', ''/d/b.ts''])"
proof -
  have "analyzeFiles cfgSmall fsSmall ''/d'' [''/d/a.ts'', ''/d/b.ts''] =
          sizeLimitLoop cfgSmall fsSmall [''/d/a.ts'', ''/d/b.ts''] (freshResult [''/d/a.ts'', ''/d/b.ts''])"
    unfolding analyzeFiles_def Let_def cs_small2 by (simp add: cfgSmall_limits freshResult_def)
  then show ?thesis
    by (simp add: Let_def processFile_def fsSmall_def tableFs_def cfgSmall_limits freshResult_def)
qed

lemma sizeLimitLoop_stops_example:
  "limited (sizeLimitLoop cfgSmall fsSmall [''/d/a.ts'', ''/d/b.ts'', ''/d/c.js'']
              ((freshResult [])\<lparr>totalSize := 1\<rparr>)) \<and>
   map filePath (analyzedFiles (sizeLimitLoop cfgSmall fsSmall [''/d/a.ts'', ''/d/b.ts'', ''/d/c.js'']
              ((freshResult [])\<lparr>totalSize := 1\<rparr>))) = [''/d/a.ts'', ''/d/b.ts''] \<and>
   excludedFiles (sizeLimitLoop cfgSmall fsSmall [''/d/a.ts'', ''/d/b.ts'', ''/d/c.js'']
              ((freshResult [])\<lparr>totalSize := 1\<rparr>)) = [] \<and>
   totalSize (sizeLimitLoop cfgSmall fsSmall [''/d/a.ts'', ''/d/b.ts'', ''/d/c.js'']
              ((freshResult [])\<lparr>totalSize := 1\<rparr>)) = 2049"
  by (simp add: Let_def processFile_def fsSmall_def tableFs_def cfgSmall_limits
      freshResult_def markdownExcluded_def path_eval)


section \<open>The tools\<close>

lemmas crawl_eval = getCodeFiles_def isCodeFileEntry_def hasSubdirectories_def getSubdirectoryDocs_def
  getSingleFileSubdirectories_def isSubdirectory_def getDocumentationFile_def existsSync_def
  readFileContent_def crawlerOptions_def startsWithDot_def pathJoin_def tableFs_def

lemma aggregatorFor_simps:
  "rootPath (aggregatorFor root t) = root" "tool (aggregatorFor root t) = asBaseTool t"
  "ignoreRules (aggregatorFor root t) = (\<lambda>p. False)" "config (aggregatorFor root t) = exampleConfig"
  by (simp_all add: aggregatorFor_def)

lemma generate_skip:
  assumes "existsSync fs (pathJoin dir (outputFilename (toolConfig tplan)))"
    and "readFileSync fs (pathJoin dir (outputFilename (toolConfig tplan))) = Inr old"
    and "\<not> updateExisting (toolConfig tplan)"
  shows "generate tplan fs dir ar isTop ch =
           (skipResult (pathJoin dir (outputFilename (toolConfig tplan))) old, fs)"
proof -
  have r: "readExistingFile fs (pathJoin dir (outputFilename (toolConfig tplan))) = Some old"
    using assms(1,2) by (simp add: readExistingFile_def)
  show ?thesis
    unfolding generate_def Let_def r using assms(3) by (simp add: skipResult_def)
qed




lemma generateContent_skip:
  assumes "tool agg = asBaseTool t"
    and "existsSync fs (pathJoin dir (outputFilename (toolConfig t)))"
    and "readFileSync fs (pathJoin dir (outputFilename (toolConfig t))) = Inr old"
    and "\<not> updateExisting (toolConfig t)"
  shows "generateContent agg fs dir ar isTop ch r =
           (skipResult (pathJoin dir (outputFilename (toolConfig t))) old,
            r\<lparr>successfulGenerations := successfulGenerations r + 1\<rparr>, fs)"
  unfolding generateContent_def assms(1)
  by (simp add: asBaseTool_def generate_skip[OF assms(2,3,4)] skipResult_def)


lemma fsArtifact_testplan:
  "existsSync fsArtifact ''/d/testplan.md''"
  "readFileSync fsArtifact ''/d/testplan.md'' = Inr ''# old''"
  by (simp_all add: fsArtifact_def tableFs_def existsSync_def)

lemma exampleTool_simps:
  "toolConfig (exampleTool upd llm) = exampleToolConfig upd"
  "outputFilename (exampleToolConfig upd) = ''testplan.md''"
  "updateExisting (exampleToolConfig upd) = upd"
  "pathJoin ''/d'' ''testplan.md'' = ''/d/testplan.md''"
  by (simp_all add: exampleTool_def exampleToolConfig_def pathJoin_def)



text \<open>
  C8 (amended). When the artifact exists and can be read, with text \<open>old\<close>, and
  \<open>updateExisting\<close> is false, \<open>generate\<close> returns \<open>skipped = true\<close>,
  \<open>success = true\<close> and \<open>content = old\<close> and leaves the files as they are; a second
  call on the unchanged directory returns the same outcome; and \<open>generateContent\<close>
  counts each of the two calls in \<open>successfulGenerations\<close> (and nothing in
  \<open>failedGenerations\<close> or \<open>errors\<close>).
\<close>

theorem generate_skip_idempotent:
  assumes "existsSync fs (pathJoin dir (outputFilename (toolConfig tplan)))"
    and "readFileSync fs (pathJoin dir (outputFilename (toolConfig tplan))) = Inr old"
    and "\<not> updateExisting (toolConfig tplan)"
    and "tool agg = asBaseTool tplan"
  shows "generate tplan fs dir ar isTop ch =
           (skipResult (pathJoin dir (outputFilename (toolConfig tplan))) old, fs) \<and>
         generate tplan (snd (generate tplan fs dir ar isTop ch)) dir ar isTop ch =
           (skipResult (pathJoin dir (outputFilename (toolConfig tplan))) old, fs) \<and>
         generateContent agg fs dir ar isTop ch r =
           (skipResult (pathJoin dir (outputFilename (toolConfig tplan))) old,
            r\<lparr>successfulGenerations := successfulGenerations r + 1\<rparr>, fs) \<and>
         generateContent agg (snd (snd (generateContent agg fs dir ar isTop ch r))) dir ar isTop ch
             (fst (snd (generateContent agg fs dir ar isTop ch r))) =
           (skipResult (pathJoin dir (outputFilename (toolConfig tplan))) old,
            r\<lparr>successfulGenerations := successfulGenerations r + 2\<rparr>, fs)"
proof -
  note g = generate_skip[OF assms(1,2,3)]
  note c = generateContent_skip[OF assms(4,1,2,3)]
  show ?thesis by (simp add: g c)
qed

theorem generate_skip_idempotent_witness:
  "existsSync fsArtifact (pathJoin ''/d'' (outputFilename (toolConfig (exampleTool False llmSucceeds)))) \<and>
   readFileSync fsArtifact (pathJoin ''/d'' (outputFilename (toolConfig (exampleTool False llmSucceeds)))) =
     Inr ''# old'' \<and>
   \<not> updateExisting (toolConfig (exampleTool False llmSucceeds)) \<and>
   generate (exampleTool False llmSucceeds) fsArtifact ''/d'' (freshResult []) False [] =
     (skipResult ''/d/testplan.md'' ''# old'', fsArtifact) \<and>
   generate (exampleTool False llmSucceeds)
       (snd (generate (exampleTool False llmSucceeds) fsArtifact ''/d'' (freshResult []) False []))
       ''/d'' (freshResult []) False [] =
     (skipResult ''/d/testplan.md'' ''# old'', fsArtifact)"
proof -
  have h1: "existsSync fsArtifact (pathJoin ''/d'' (outputFilename (toolConfig (exampleTool False llmSucceeds))))"
    by (simp add: exampleTool_simps fsArtifact_testplan)
  have h2: "readFileSync fsArtifact (pathJoin ''/d'' (outputFilename (toolConfig (exampleTool False llmSucceeds)))) =
     Inr ''# old''"
    by (simp add: exampleTool_simps fsArtifact_testplan)
  have h3: "\<not> updateExisting (toolConfig (exampleTool False llmSucceeds))"
    by (simp add: exampleTool_simps)
  have h4: "tool (aggregatorFor ''/d'' (exampleTool False llmSucceeds)) =
            asBaseTool (exampleTool False llmSucceeds)"
    by (simp add: aggregatorFor_def)
  from generate_skip_idempotent[OF h1 h2 h3 h4, of "freshResult []" False "[]"] h1 h2 h3
  show ?thesis by (simp add: exampleTool_simps)
qed

text \<open>
  C8 as stated fails when the artifact exists and cannot be read: \<open>readExistingFile\<close>
  returns nothing, the call is not skipped, and the content is the newly generated text.
\<close>

theorem generate_unreadable_artifact_counterexample:
  "existsSync fsUnreadableArtifact
     (pathJoin ''/d'' (outputFilename (toolConfig (exampleTool False llmSucceeds)))) \<and>
   readFileSync fsUnreadableArtifact ''/d/testplan.md'' = Inl ''EACCES'' \<and>
   \<not> updateExisting (toolConfig (exampleTool False llmSucceeds)) \<and>
   skipped (fst (generate (exampleTool False llmSucceeds) fsUnreadableArtifact ''/d''
                   (freshResult []) False [])) = None \<and>
   content (fst (generate (exampleTool False llmSucceeds) fsUnreadableArtifact ''/d''
                   (freshResult []) False [])) = ''# Test Plan''"
proof -
  have e: "existsSync fsUnreadableArtifact ''/d/testplan.md''"
    by (simp add: fsUnreadableArtifact_def fsArtifact_def tableFs_def existsSync_def)
  have r: "readExistingFile fsUnreadableArtifact ''/d/testplan.md'' = None"
    by (simp add: readExistingFile_def e) (simp add: fsUnreadableArtifact_def)
  have g: "fst (generate (exampleTool False llmSucceeds) fsUnreadableArtifact ''/d''
                   (freshResult []) False []) =
     \<lparr> outputPath = ''/d/testplan.md'', success = True, content = ''# Test Plan'', error = None,
       isUpdate = False, skipped = None \<rparr>"
    unfolding generate_def Let_def exampleTool_simps r
    by (simp add: finishGeneration_def exampleTool_def llmSucceeds_def writeFile_def
        fsUnreadableArtifact_def fsArtifact_def tableFs_def)
  have u: "readFileSync fsUnreadableArtifact ''/d/testplan.md'' = Inl ''EACCES''"
    by (simp add: fsUnreadableArtifact_def)
  show ?thesis by (simp add: g exampleTool_simps e u)
qed

section \<open>The aggregation driver\<close>

lemma processDirectory_no_files:
  assumes "getCodeFiles crawlerOptions (ignoreRules agg) (config agg) fs d = []"
  shows "processDirectory agg d (r, fs) = Inr (r, fs)"
  unfolding processDirectory_def by (simp add: assms shouldDocument_def Let_def)

lemma fsRepo_root:
  "getCodeFiles crawlerOptions (\<lambda>p. False) exampleConfig fsRepo ''/repo'' = []"
  "hasSubdirectories crawlerOptions (\<lambda>p. False) fsRepo ''/repo''"
  by (simp_all add: crawl_eval fsRepo_def exampleConfig_def)

text \<open>
  C2 fails on the code. The root of the example has no code file and one subdirectory:
  \<open>shouldDocument\<close> is false for it, and the driver leaves the directory without
  collecting child content or calling the generator: counters and files are unchanged.
\<close>

theorem processDirectory_skips_directory_without_files:
  "getCodeFiles crawlerOptions (\<lambda>p. False) exampleConfig fsRepo ''/repo'' = [] \<and>
   hasSubdirectories crawlerOptions (\<lambda>p. False) fsRepo ''/repo'' \<and>
   \<not> shouldDocument exampleConfig ''/repo'' [] True \<and>
   processDirectory (aggregatorFor ''/repo'' (exampleTool True llmSucceeds)) ''/repo'' (emptyResult, fsRepo) =
     Inr (emptyResult, fsRepo)"
  using fsRepo_root
  by (simp add: processDirectory_no_files aggregatorFor_simps shouldDocument_def)

theorem processDirectory_skips_directory_without_files_witness:
  "processDirectory (aggregatorFor ''/repo'' (exampleTool True llmSucceeds)) ''/repo'' (emptyResult, fsRepo) =
     Inr (emptyResult, fsRepo)"
  by (rule processDirectory_skips_directory_without_files
        [THEN conjunct2, THEN conjunct2, THEN conjunct2])

lemma processDirectory_generates:
  assumes "shouldDocument (config agg) d
             (getCodeFiles crawlerOptions (ignoreRules agg) (config agg) fs d)
             (hasSubdirectories crawlerOptions (ignoreRules agg) fs d)"
    and "\<not> limited (analyzeFiles (config agg) fs d
             (getCodeFiles crawlerOptions (ignoreRules agg) (config agg) fs d))"
    and "generateContent agg fs d
           (analyzeFiles (config agg) fs d (getCodeFiles crawlerOptions (ignoreRules agg) (config agg) fs d))
           (d = rootPath agg)
           (getSubdirectoryDocs crawlerOptions (ignoreRules agg) (config agg) fs d @
            getSingleFileSubdirectories crawlerOptions (ignoreRules agg) (config agg) fs d) r = (g, r', fs')"
  shows "processDirectory agg d (r, fs) =
           Inr (if truthy (skipped g) then r'\<lparr>skippedGenerations := skippedGenerations r' + 1\<rparr>
                else if isUpdate g then r'\<lparr>updatedGenerations := updatedGenerations r' + 1\<rparr>
                else r', fs')"
  unfolding processDirectory_def using assms by (simp add: Let_def)

lemma generateContent_outcomes:
  "generateMethod (tool agg) fs d ar isTop ch = (Inl message, fs') \<Longrightarrow>
     generateContent agg fs d ar isTop ch r =
       (\<lparr> outputPath = pathJoin d (getOutputFilename (tool agg)), success = False, content = [],
           error = Some message, isUpdate = False, skipped = None \<rparr>,
        pushError d message (r\<lparr>failedGenerations := failedGenerations r + 1\<rparr>), fs')"
  "generateMethod (tool agg) fs d ar isTop ch = (Inr g, fs') \<Longrightarrow> success g \<Longrightarrow>
     generateContent agg fs d ar isTop ch r =
       (g, r\<lparr>successfulGenerations := successfulGenerations r + 1\<rparr>, fs')"
  "generateMethod (tool agg) fs d ar isTop ch = (Inr g, fs') \<Longrightarrow> \<not> success g \<Longrightarrow>
     generateContent agg fs d ar isTop ch r =
       (g, pushError d (case error g of None \<Rightarrow> ''Unknown error''
                        | Some message \<Rightarrow> if message = [] then ''Unknown error'' else message)
             (r\<lparr>failedGenerations := failedGenerations r + 1\<rparr>), fs')"
  by (simp_all add: generateContent_def)

text \<open>
  The one handler at a directory is that of \<open>generateContent\<close>, around the generator.
  With the Analyzer and the Collector of the repository, for an eligible directory whose
  analysis is not limited, the body of the loop returns normally and the loop goes on with
  the next directory; \<open>failedGenerations\<close> is incremented and an entry for the directory
  is appended to \<open>errors\<close> exactly when the generator throws or returns
  \<open>success = false\<close>.
\<close>

lemma processDirectory_generator_failure_local:
  assumes "shouldDocument (config agg) d
             (getCodeFiles crawlerOptions (ignoreRules agg) (config agg) fs d)
             (hasSubdirectories crawlerOptions (ignoreRules agg) fs d)"
    and "\<not> limited (analyzeFiles (config agg) fs d
             (getCodeFiles crawlerOptions (ignoreRules agg) (config agg) fs d))"
  shows "\<exists>r' fs'.
           processDirectory agg d (r, fs) = Inr (r', fs') \<and>
           forEachDirectory agg (d # rest) (r, fs) = forEachDirectory agg rest (r', fs') \<and>
           (case fst (generateMethod (tool agg) fs d
                        (analyzeFiles (config agg) fs d
                           (getCodeFiles crawlerOptions (ignoreRules agg) (config agg) fs d))
                        (d = rootPath agg)
                        (getSubdirectoryDocs crawlerOptions (ignoreRules agg) (config agg) fs d @
                         getSingleFileSubdirectories crawlerOptions (ignoreRules agg) (config agg) fs d)) of
              Inl message \<Rightarrow>
                failedGenerations r' = failedGenerations r + 1 \<and>
                errors r' = errors r @ [\<lparr>directory = d, errorText = message\<rparr>]
            | Inr g \<Rightarrow>
                if success g
                then failedGenerations r' = failedGenerations r \<and> errors r' = errors r
                else failedGenerations r' = failedGenerations r + 1 \<and>
                     (\<exists>message. errors r' = errors r @ [\<lparr>directory = d, errorText = message\<rparr>]))"
proof -
  let ?ar = "analyzeFiles (config agg) fs d
               (getCodeFiles crawlerOptions (ignoreRules agg) (config agg) fs d)"
  let ?ch = "getSubdirectoryDocs crawlerOptions (ignoreRules agg) (config agg) fs d @
             getSingleFileSubdirectories crawlerOptions (ignoreRules agg) (config agg) fs d"
  obtain res fs' where gm: "generateMethod (tool agg) fs d ?ar (d = rootPath agg) ?ch = (res, fs')"
    by (cases "generateMethod (tool agg) fs d ?ar (d = rootPath agg) ?ch")
  obtain g r1 fs1 where gc: "generateContent agg fs d ?ar (d = rootPath agg) ?ch r = (g, r1, fs1)"
    by (cases "generateContent agg fs d ?ar (d = rootPath agg) ?ch r")
  note pd = processDirectory_generates[OF assms gc]
  let ?r' = "if truthy (skipped g) then r1\<lparr>skippedGenerations := skippedGenerations r1 + 1\<rparr>
             else if isUpdate g then r1\<lparr>updatedGenerations := updatedGenerations r1 + 1\<rparr>
             else r1"
  have keep: "failedGenerations ?r' = failedGenerations r1" "errors ?r' = errors r1"
    by simp_all
  have loop: "forEachDirectory agg (d # rest) (r, fs) = forEachDirectory agg rest (?r', fs1)"
    using pd by simp
  show ?thesis
  proof (cases res)
    case (Inl message)
    from generateContent_outcomes(1)[of agg fs d ?ar "d = rootPath agg" ?ch message fs' r] gm Inl gc
    have "r1 = pushError d message (r\<lparr>failedGenerations := failedGenerations r + 1\<rparr>)" by simp
    then have "failedGenerations r1 = failedGenerations r + 1"
      "errors r1 = errors r @ [\<lparr>directory = d, errorText = message\<rparr>]"
      by (simp_all add: pushError_def)
    with keep pd loop gm Inl show ?thesis by (intro exI[of _ ?r'] exI[of _ fs1]) simp
  next
    case (Inr gen)
    show ?thesis
    proof (cases "success gen")
      case True
      from generateContent_outcomes(2)[of agg fs d ?ar "d = rootPath agg" ?ch gen fs' r] gm Inr gc True
      have "r1 = r\<lparr>successfulGenerations := successfulGenerations r + 1\<rparr>" by simp
      then have "failedGenerations r1 = failedGenerations r" "errors r1 = errors r" by simp_all
      with keep pd loop gm Inr True show ?thesis by (intro exI[of _ ?r'] exI[of _ fs1]) simp
    next
      case False
      from generateContent_outcomes(3)[of agg fs d ?ar "d = rootPath agg" ?ch gen fs' r] gm Inr gc False
      have "\<exists>message. r1 = pushError d message (r\<lparr>failedGenerations := failedGenerations r + 1\<rparr>)"
        by auto
      then obtain message where "r1 = pushError d message (r\<lparr>failedGenerations := failedGenerations r + 1\<rparr>)"
        by blast
      then have "failedGenerations r1 = failedGenerations r + 1"
        "errors r1 = errors r @ [\<lparr>directory = d, errorText = message\<rparr>]"
        by (simp_all add: pushError_def)
      with keep pd loop gm Inr False show ?thesis by (intro exI[of _ ?r'] exI[of _ fs1]) auto
    qed
  qed
qed

lemma fsUnreadable_dir:
  "getCodeFiles crawlerOptions (\<lambda>p. False) exampleConfig fsUnreadable ''/d'' = [''/d/a.ts'', ''/d/b.ts'']"
  "hasSubdirectories crawlerOptions (\<lambda>p. False) fsUnreadable ''/d'' = False"
  "getSubdirectoryDocs crawlerOptions (\<lambda>p. False) exampleConfig fsUnreadable ''/d'' = []"
  "getSingleFileSubdirectories crawlerOptions (\<lambda>p. False) exampleConfig fsUnreadable ''/d'' = []"
  by (simp_all add: crawl_eval fsUnreadable_def exampleConfig_def path_eval)

lemma exampleConfig_code:
  "filter (isCodeFile exampleConfig) [''/d/a.ts'', ''/d/b.ts''] = [''/d/a.ts'', ''/d/b.ts'']"
  by (simp add: exampleConfig_def path_eval)

lemma exampleConfig_limits:
  "maxFileSizeKb exampleConfig = 100" "maxFilesPerDirectory exampleConfig = 20"
  "maxTotalSizeOf exampleConfig = 2048000"
  by (simp_all add: exampleConfig_def maxTotalSizeOf_def)

lemma fsUnreadable_analysis:
  "analyzeFiles exampleConfig fsUnreadable ''/d'' [''/d/a.ts'', ''/d/b.ts''] =
     \<lparr> analyzedFiles = [\<lparr>filePath = ''/d/b.ts'', fileContent = ''B'', extension = ''.ts''\<rparr>],
       excludedFiles = [\<lparr>excludedPath = ''/d/a.ts'', reason = ''Error reading file: EACCES''\<rparr>],
       limited = False, totalSize = 12, limitReason = None \<rparr>"
  unfolding analyzeFiles_def Let_def exampleConfig_code
  by (simp add: exampleConfig_limits processFile_def pushExcluded_def fsUnreadable_def tableFs_def
      markdownExcluded_def path_eval)

lemma exampleConfig_isCode:
  "isCodeFile exampleConfig ''/d/a.ts''" "isCodeFile exampleConfig ''/d/b.ts''"
  by (simp_all add: exampleConfig_def path_eval)

lemma fsUnreadable_generate:
  "fst (generate (exampleTool True llmSucceeds) fsUnreadable ''/d'' ar isTop ch) =
     \<lparr> outputPath = ''/d/testplan.md'', success = True, content = ''# Test Plan'', error = None,
       isUpdate = False, skipped = None \<rparr>"
proof -
  have r: "readExistingFile fsUnreadable ''/d/testplan.md'' = None"
    by (simp add: readExistingFile_def existsSync_def fsUnreadable_def tableFs_def)
  show ?thesis
    unfolding generate_def Let_def exampleTool_simps r
    by (simp add: finishGeneration_def exampleTool_def llmSucceeds_def writeFile_def fsUnreadable_def tableFs_def)
qed

text \<open>
  The Analyzer of the repository throws nothing to the driver: a read error (reading
  \<open>a.ts\<close> fails) is caught in \<open>processFile\<close> and becomes an excluded file; the directory
  is generated, \<open>errors\<close> stays empty and \<open>failedGenerations\<close> stays 0.
\<close>

lemma analyzer_failure_not_in_errors:
  "excludedFiles (analyzeFiles exampleConfig fsUnreadable ''/d''
      (getCodeFiles crawlerOptions (\<lambda>p. False) exampleConfig fsUnreadable ''/d'')) =
     [\<lparr>excludedPath = ''/d/a.ts'', reason = ''Error reading file: EACCES''\<rparr>] \<and>
   map_sum id fst (processDirectory (aggregatorFor ''/d'' (exampleTool True llmSucceeds)) ''/d''
                     (emptyResult, fsUnreadable)) =
     Inr (emptyResult\<lparr>successfulGenerations := 1\<rparr>)"
proof -
  let ?agg = "aggregatorFor ''/d'' (exampleTool True llmSucceeds)"
  let ?ar = "analyzeFiles exampleConfig fsUnreadable ''/d'' [''/d/a.ts'', ''/d/b.ts'']"
  obtain g fs' where gen: "generate (exampleTool True llmSucceeds) fsUnreadable ''/d'' ?ar True [] = (g, fs')"
    by (cases "generate (exampleTool True llmSucceeds) fsUnreadable ''/d'' ?ar True []")
  with fsUnreadable_generate[of ?ar True "[]"] have g: "success g" "skipped g = None" "\<not> isUpdate g"
    by simp_all
  have gm: "generateMethod (tool ?agg) fsUnreadable ''/d'' ?ar True [] = (Inr g, fs')"
    by (simp add: aggregatorFor_simps asBaseTool_def gen)
  note gc = generateContent_outcomes(2)[OF gm g(1), of emptyResult]
  have el: "shouldDocument (config ?agg) ''/d''
             (getCodeFiles crawlerOptions (ignoreRules ?agg) (config ?agg) fsUnreadable ''/d'')
             (hasSubdirectories crawlerOptions (ignoreRules ?agg) fsUnreadable ''/d'')"
    by (simp add: aggregatorFor_simps fsUnreadable_dir shouldDocument_def exampleConfig_isCode)
  have nl: "\<not> limited (analyzeFiles (config ?agg) fsUnreadable ''/d''
             (getCodeFiles crawlerOptions (ignoreRules ?agg) (config ?agg) fsUnreadable ''/d''))"
    by (simp add: aggregatorFor_simps fsUnreadable_dir fsUnreadable_analysis)
  have gc': "generateContent ?agg fsUnreadable ''/d''
           (analyzeFiles (config ?agg) fsUnreadable ''/d''
              (getCodeFiles crawlerOptions (ignoreRules ?agg) (config ?agg) fsUnreadable ''/d''))
           (''/d'' = rootPath ?agg)
           (getSubdirectoryDocs crawlerOptions (ignoreRules ?agg) (config ?agg) fsUnreadable ''/d'' @
            getSingleFileSubdirectories crawlerOptions (ignoreRules ?agg) (config ?agg) fsUnreadable ''/d'')
           emptyResult = (g, emptyResult\<lparr>successfulGenerations := successfulGenerations emptyResult + 1\<rparr>, fs')"
    using gc by (simp add: aggregatorFor_simps fsUnreadable_dir)
  from processDirectory_generates[OF el nl gc'] g
  have "processDirectory ?agg ''/d'' (emptyResult, fsUnreadable) =
          Inr (emptyResult\<lparr>successfulGenerations := successfulGenerations emptyResult + 1\<rparr>, fs')"
    by (simp add: truthy_def)
  then show ?thesis
    by (simp add: fsUnreadable_dir fsUnreadable_analysis emptyResult_def)
qed

lemma processDirectory_generator_failure_local_example:
  "shouldDocument (config (aggregatorFor ''/d'' (exampleTool True llmFails))) ''/d''
     (getCodeFiles crawlerOptions (ignoreRules (aggregatorFor ''/d'' (exampleTool True llmFails)))
        (config (aggregatorFor ''/d'' (exampleTool True llmFails))) fsUnreadable ''/d'')
     (hasSubdirectories crawlerOptions (ignoreRules (aggregatorFor ''/d'' (exampleTool True llmFails)))
        fsUnreadable ''/d'') \<and>
   \<not> limited (analyzeFiles (config (aggregatorFor ''/d'' (exampleTool True llmFails))) fsUnreadable ''/d''
     (getCodeFiles crawlerOptions (ignoreRules (aggregatorFor ''/d'' (exampleTool True llmFails)))
        (config (aggregatorFor ''/d'' (exampleTool True llmFails))) fsUnreadable ''/d'')) \<and>
   (\<exists>r' fs'. processDirectory (aggregatorFor ''/d'' (exampleTool True llmFails)) ''/d''
                (emptyResult, fsUnreadable) = Inr (r', fs'))"
proof -
  let ?agg = "aggregatorFor ''/d'' (exampleTool True llmFails)"
  have el: "shouldDocument (config ?agg) ''/d''
             (getCodeFiles crawlerOptions (ignoreRules ?agg) (config ?agg) fsUnreadable ''/d'')
             (hasSubdirectories crawlerOptions (ignoreRules ?agg) fsUnreadable ''/d'')"
    by (simp add: aggregatorFor_simps fsUnreadable_dir shouldDocument_def exampleConfig_isCode)
  have nl: "\<not> limited (analyzeFiles (config ?agg) fsUnreadable ''/d''
             (getCodeFiles crawlerOptions (ignoreRules ?agg) (config ?agg) fsUnreadable ''/d''))"
    by (simp add: aggregatorFor_simps fsUnreadable_dir fsUnreadable_analysis)
  from processDirectory_generator_failure_local[OF el nl, of emptyResult "[]"] el nl
  show ?thesis by blast
qed

lemma fsArtifact_dir:
  "getCodeFiles crawlerOptions (\<lambda>p. False) exampleConfig fsArtifact ''/d'' = [''/d/a.ts'', ''/d/b.ts'']"
  "hasSubdirectories crawlerOptions (\<lambda>p. False) fsArtifact ''/d'' = False"
  "getSubdirectoryDocs crawlerOptions (\<lambda>p. False) exampleConfig fsArtifact ''/d'' = []"
  "getSingleFileSubdirectories crawlerOptions (\<lambda>p. False) exampleConfig fsArtifact ''/d'' = []"
  by (simp_all add: crawl_eval fsArtifact_def exampleConfig_def path_eval)

lemma fsArtifact_analysis:
  "\<not> limited (analyzeFiles exampleConfig fsArtifact ''/d'' [''/d/a.ts'', ''/d/b.ts''])"
  by (rule analyzeFiles_size_branch_unreachable(1))
     (simp add: exampleConfig_code exampleConfig_limits)

lemma fsArtifact_generate_fails:
  "generate (exampleTool True llmFails) fsArtifact ''/d'' ar isTop ch =
     (\<lparr> outputPath = ''/d/testplan.md'', success = False, content = [], error = Some ''rate limited'',
        isUpdate = True, skipped = None \<rparr>, fsArtifact)"
proof -
  have r: "readExistingFile fsArtifact ''/d/testplan.md'' = Some ''# old''"
    by (simp add: readExistingFile_def fsArtifact_testplan)
  show ?thesis
    unfolding generate_def Let_def exampleTool_simps r
    by (simp add: finishGeneration_def exampleTool_def llmFails_def failed_def)
qed

text \<open>
  C9 fails on the code. The artifact exists, \<open>updateExisting\<close> is true and the language
  model fails: for this one directory the driver increments \<open>failedGenerations\<close> and
  \<open>updatedGenerations\<close>.
\<close>

theorem failed_generation_counted_as_updated:
  "processDirectory (aggregatorFor ''/d'' (exampleTool True llmFails)) ''/d'' (emptyResult, fsArtifact) =
     Inr (emptyResult\<lparr> failedGenerations := 1, updatedGenerations := 1,
                        errors := [\<lparr>directory = ''/d'', errorText = ''rate limited''\<rparr>] \<rparr>,
          fsArtifact)"
proof -
  let ?agg = "aggregatorFor ''/d'' (exampleTool True llmFails)"
  let ?ar = "analyzeFiles exampleConfig fsArtifact ''/d'' [''/d/a.ts'', ''/d/b.ts'']"
  let ?g = "\<lparr> outputPath = ''/d/testplan.md'', success = False, content = [], error = Some ''rate limited'',
        isUpdate = True, skipped = None \<rparr>"
  have gm: "generateMethod (tool ?agg) fsArtifact ''/d'' ?ar True [] = (Inr ?g, fsArtifact)"
    by (simp add: aggregatorFor_simps asBaseTool_def fsArtifact_generate_fails)
  have ns: "\<not> success ?g" by simp
  note gc = generateContent_outcomes(3)[OF gm ns, of emptyResult]
  have el: "shouldDocument (config ?agg) ''/d''
             (getCodeFiles crawlerOptions (ignoreRules ?agg) (config ?agg) fsArtifact ''/d'')
             (hasSubdirectories crawlerOptions (ignoreRules ?agg) fsArtifact ''/d'')"
    by (simp add: aggregatorFor_simps fsArtifact_dir shouldDocument_def exampleConfig_isCode)
  have nl: "\<not> limited (analyzeFiles (config ?agg) fsArtifact ''/d''
             (getCodeFiles crawlerOptions (ignoreRules ?agg) (config ?agg) fsArtifact ''/d''))"
    by (simp add: aggregatorFor_simps fsArtifact_dir fsArtifact_analysis)
  have gc': "generateContent ?agg fsArtifact ''/d''
           (analyzeFiles (config ?agg) fsArtifact ''/d''
              (getCodeFiles crawlerOptions (ignoreRules ?agg) (config ?agg) fsArtifact ''/d''))
           (''/d'' = rootPath ?agg)
           (getSubdirectoryDocs crawlerOptions (ignoreRules ?agg) (config ?agg) fsArtifact ''/d'' @
            getSingleFileSubdirectories crawlerOptions (ignoreRules ?agg) (config ?agg) fsArtifact ''/d'')
           emptyResult =
          (?g, pushError ''/d'' ''rate limited''
                 (emptyResult\<lparr>failedGenerations := failedGenerations emptyResult + 1\<rparr>), fsArtifact)"
    using gc by (simp add: aggregatorFor_simps fsArtifact_dir)
  from processDirectory_generates[OF el nl gc']
  show ?thesis by (simp add: truthy_def pushError_def emptyResult_def)
qed

theorem failed_generation_counted_as_updated_witness:
  "map_sum id (\<lambda>st. (failedGenerations (fst st), updatedGenerations (fst st)))
     (processDirectory (aggregatorFor ''/d'' (exampleTool True llmFails)) ''/d'' (emptyResult, fsArtifact)) =
   Inr (1, 1)"
  unfolding failed_generation_counted_as_updated by simp

section \<open>Exceptions of the Analyzer and the Collector\<close>

text \<open>
  With the methods of the repository, the driver over its collaborators is the driver.
\<close>

lemma processDirectoryWith_repository:
  "processDirectoryWith (repositoryCollaborators agg) agg d st = processDirectory agg d st"
  unfolding processDirectoryWith_def processDirectory_def repositoryCollaborators_def Let_def
  by (simp only: Collaborators.select_convs sum.case)

lemma forEachDirectoryWith_repository:
  "forEachDirectoryWith (repositoryCollaborators agg) agg ds st = forEachDirectory agg ds st"
  by (induction ds arbitrary: st) (simp_all add: processDirectoryWith_repository split: sum.splits)

lemma runWith_repository:
  "runWith (repositoryCollaborators agg) agg root fs = run agg root fs"
  unfolding runWith_def run_def forEachDirectoryWith_repository ..

text \<open>
  The Analyzer and the Collector of the repository catch their own errors: they throw
  nothing to the driver.
\<close>

lemma repositoryCollaborators_total:
  "thrownByCollaborators (repositoryCollaborators agg) agg fs d = None"
  by (simp add: thrownByCollaborators_def repositoryCollaborators_def)















section \<open>Single-file directories\<close>

lemma filterThrowing_total:
  "\<forall>x \<in> set xs. \<exists>b. p x = Inr b \<Longrightarrow> filterThrowing p xs = Inr (filter (\<lambda>x. p x = Inr True) xs)"
  by (induction xs) auto

lemma singleFileLoop_member:
  "subdir \<in> set subdirs \<Longrightarrow> getCodeFiles opts ig cfg fs subdir = [file] \<Longrightarrow>
   readFileContent cfg fs file = Some c \<Longrightarrow> c \<noteq> [] \<Longrightarrow>
   singleFileItem dir subdir file c \<in> set (singleFileLoop opts ig cfg fs dir subdirs)"
  by (induction subdirs) auto

lemma childPath_singleFileItem: "childPath (singleFileItem d s f c) = s"
  by (simp add: singleFileItem_def)

lemma singleFileLoop_paths:
  "item \<in> set (singleFileLoop opts ig cfg fs dir subdirs) \<Longrightarrow>
   \<exists>file c. getCodeFiles opts ig cfg fs (childPath item) = [file] \<and>
            readFileContent cfg fs file = Some c \<and> c \<noteq> [] \<and>
            item = singleFileItem dir (childPath item) file c"
proof (induction subdirs)
  case Nil
  then show ?case by simp
next
  case (Cons sd rest)
  show ?case
  proof (cases "item \<in> set (singleFileLoop opts ig cfg fs dir rest)")
    case True
    then show ?thesis by (rule Cons.IH)
  next
    case False
    with Cons.prems obtain f c where
      "getCodeFiles opts ig cfg fs sd = [f]" "readFileContent cfg fs f = Some c" "c \<noteq> []"
      "item = singleFileItem dir sd f c"
      by (auto split: list.splits option.splits if_splits) metis
    then show ?thesis by (auto simp: childPath_singleFileItem)
  qed
qed

lemma getSingleFileSubdirectories_paths:
  assumes "item \<in> set (getSingleFileSubdirectories opts ig cfg fs dir)"
  shows "\<exists>file c. getCodeFiles opts ig cfg fs (childPath item) = [file] \<and>
            readFileContent cfg fs file = Some c \<and> c \<noteq> []"
proof -
  from assms obtain subdirs where "item \<in> set (singleFileLoop opts ig cfg fs dir subdirs)"
    by (auto simp: getSingleFileSubdirectories_def split: sum.splits)
  from singleFileLoop_paths[OF this] show ?thesis by blast
qed

lemma getSingleFileSubdirectories_member:
  assumes "readdirSync fs dir = Inr entries"
    and "\<forall>e \<in> set entries. \<exists>s. statSync fs (pathJoin dir e) = Inr s"
    and "sub \<in> set entries"
    and "statSync fs (pathJoin dir sub) = Inr s" and "isDirectory s"
    and "\<not> respectGitignore opts \<or> \<not> ig (pathJoin dir sub)"
    and "getCodeFiles opts ig cfg fs (pathJoin dir sub) = [file]"
    and "readFileContent cfg fs file = Some c" and "c \<noteq> []"
  shows "singleFileItem dir (pathJoin dir sub) file c \<in> set (getSingleFileSubdirectories opts ig cfg fs dir)"
proof -
  have tot: "\<forall>x \<in> set (map (pathJoin dir) entries). \<exists>b. isSubdirectory opts ig fs x = Inr b"
    using assms(2) by (auto simp: isSubdirectory_def)
  have sd: "isSubdirectory opts ig fs (pathJoin dir sub) = Inr True"
    using assms(4,5,6) by (auto simp: isSubdirectory_def)
  have mem: "pathJoin dir sub \<in>
          set (filter (\<lambda>x. isSubdirectory opts ig fs x = Inr True) (map (pathJoin dir) entries))"
    using assms(3) sd by auto
  show ?thesis
    unfolding getSingleFileSubdirectories_def
    using singleFileLoop_member[OF mem assms(7,8,9)]
    by (simp add: assms(1) filterThrowing_total[OF tot])
qed

lemma readFileContent_Some:
  "readFileContent cfg fs f = Some c \<longleftrightarrow>
     (\<exists>sf. statSync fs f = Inr sf \<and> statSize sf \<le> maxFileSizeKb cfg * 1024 \<and> readFileSync fs f = Inr c)"
  by (auto simp: readFileContent_def split: sum.splits)

text \<open>
  C4 (amended). Let \<open>sub\<close> be an entry of the directory \<open>dir\<close> that is a directory and
  not ignored, with exactly one code file \<open>file\<close> (as \<open>getCodeFiles\<close> lists it) and no
  subdirectory, and let every entry of \<open>dir\<close> have a status. Then \<open>shouldDocument\<close> is
  false for \<open>sub\<close>. If \<open>statSync\<close> gives the file a size of at most
  \<open>maxFileSizeKb * 1024\<close> bytes and \<open>readFileSync\<close> returns a text that is not empty, the
  child content of \<open>dir\<close> contains the item for \<open>sub\<close>, whose text is the header followed
  by the text of the file, verbatim, inside a fenced block. The inlined content has an item
  for \<open>sub\<close> exactly in that case: there is none when the file is larger than the limit,
  when its status or its text cannot be read, and when its text is empty. No error is
  returned in any case.
\<close>

theorem single_file_directory_deferred:
  assumes "readdirSync fs dir = Inr entries"
    and "\<forall>e \<in> set entries. \<exists>s. statSync fs (pathJoin dir e) = Inr s"
    and "sub \<in> set entries"
    and "statSync fs (pathJoin dir sub) = Inr s" and "isDirectory s"
    and "\<not> respectGitignore opts \<or> \<not> ig (pathJoin dir sub)"
    and "getCodeFiles opts ig cfg fs (pathJoin dir sub) = [file]"
    and "\<not> hasSubdirectories opts ig fs (pathJoin dir sub)"
  shows "\<not> shouldDocument cfg (pathJoin dir sub) (getCodeFiles opts ig cfg fs (pathJoin dir sub))
             (hasSubdirectories opts ig fs (pathJoin dir sub)) \<and>
         (\<forall>sf c. statSync fs file = Inr sf \<and> statSize sf \<le> maxFileSizeKb cfg * 1024 \<and>
                 readFileSync fs file = Inr c \<and> c \<noteq> [] \<longrightarrow>
            singleFileItem dir (pathJoin dir sub) file c \<in>
              set (getSubdirectoryDocs opts ig cfg fs dir @ getSingleFileSubdirectories opts ig cfg fs dir) \<and>
            childText (singleFileItem dir (pathJoin dir sub) file c) =
              ''# '' @ basename (pathJoin dir sub) @ '' - '' @ basename file @ newline @ newline @
              ''This file is from a single-file directory: '' @ pathRelative dir (pathJoin dir sub) @
              newline @ newline @ fence @ newline @ c @ newline @ fence) \<and>
         (pathJoin dir sub \<in> childPath ` set (getSingleFileSubdirectories opts ig cfg fs dir) \<longleftrightarrow>
            (\<exists>sf c. statSync fs file = Inr sf \<and> statSize sf \<le> maxFileSizeKb cfg * 1024 \<and>
                    readFileSync fs file = Inr c \<and> c \<noteq> [])) \<and>
         (\<forall>sf. statSync fs file = Inr sf \<and> maxFileSizeKb cfg * 1024 < statSize sf \<longrightarrow>
            pathJoin dir sub \<notin> childPath ` set (getSingleFileSubdirectories opts ig cfg fs dir)) \<and>
         ((\<exists>e. statSync fs file = Inl e) \<or> (\<exists>e. readFileSync fs file = Inl e) \<longrightarrow>
            pathJoin dir sub \<notin> childPath ` set (getSingleFileSubdirectories opts ig cfg fs dir)) \<and>
         (readFileSync fs file = Inr [] \<longrightarrow>
            pathJoin dir sub \<notin> childPath ` set (getSingleFileSubdirectories opts ig cfg fs dir))"
proof -
  let ?in = "pathJoin dir sub \<in> childPath ` set (getSingleFileSubdirectories opts ig cfg fs dir)"
  let ?ok = "\<exists>sf c. statSync fs file = Inr sf \<and> statSize sf \<le> maxFileSizeKb cfg * 1024 \<and>
                    readFileSync fs file = Inr c \<and> c \<noteq> []"
  have sd: "\<not> shouldDocument cfg (pathJoin dir sub) (getCodeFiles opts ig cfg fs (pathJoin dir sub))
             (hasSubdirectories opts ig fs (pathJoin dir sub))"
    unfolding assms(7) using assms(8) by (simp add: shouldDocument_def)
  have mem: "singleFileItem dir (pathJoin dir sub) file c \<in>
               set (getSingleFileSubdirectories opts ig cfg fs dir)"
    if "statSync fs file = Inr sf" "statSize sf \<le> maxFileSizeKb cfg * 1024"
       "readFileSync fs file = Inr c" "c \<noteq> []" for sf c
  proof -
    have "readFileContent cfg fs file = Some c"
      using that(1,2,3) by (auto simp: readFileContent_Some)
    from getSingleFileSubdirectories_member[OF assms(1-7) this that(4)] show ?thesis .
  qed
  have iff: "?in \<longleftrightarrow> ?ok"
  proof
    assume ?in
    then obtain item where it: "item \<in> set (getSingleFileSubdirectories opts ig cfg fs dir)"
      "childPath item = pathJoin dir sub" by auto
    from getSingleFileSubdirectories_paths[OF it(1)] it(2) assms(7)
    obtain c where "readFileContent cfg fs file = Some c" "c \<noteq> []" by auto
    then show ?ok by (auto simp: readFileContent_Some)
  next
    assume ?ok
    then obtain sf c where ok: "statSync fs file = Inr sf" "statSize sf \<le> maxFileSizeKb cfg * 1024"
      "readFileSync fs file = Inr c" "c \<noteq> []" by blast
    from mem[OF ok] have "childPath (singleFileItem dir (pathJoin dir sub) file c) \<in>
        childPath ` set (getSingleFileSubdirectories opts ig cfg fs dir)" by (rule imageI)
    then show ?in by (simp add: childPath_singleFileItem)
  qed
  have c2: "\<forall>sf c. statSync fs file = Inr sf \<and> statSize sf \<le> maxFileSizeKb cfg * 1024 \<and>
                 readFileSync fs file = Inr c \<and> c \<noteq> [] \<longrightarrow>
            singleFileItem dir (pathJoin dir sub) file c \<in>
              set (getSubdirectoryDocs opts ig cfg fs dir @ getSingleFileSubdirectories opts ig cfg fs dir) \<and>
            childText (singleFileItem dir (pathJoin dir sub) file c) =
              ''# '' @ basename (pathJoin dir sub) @ '' - '' @ basename file @ newline @ newline @
              ''This file is from a single-file directory: '' @ pathRelative dir (pathJoin dir sub) @
              newline @ newline @ fence @ newline @ c @ newline @ fence"
    using mem by (auto simp: singleFileItem_def)
  have c4: "\<forall>sf. statSync fs file = Inr sf \<and> maxFileSizeKb cfg * 1024 < statSize sf \<longrightarrow> \<not> ?in"
    unfolding iff by auto
  have c5: "(\<exists>e. statSync fs file = Inl e) \<or> (\<exists>e. readFileSync fs file = Inl e) \<longrightarrow> \<not> ?in"
    unfolding iff by auto
  have c6: "readFileSync fs file = Inr [] \<longrightarrow> \<not> ?in"
    unfolding iff by auto
  show ?thesis
    apply (intro conjI)
         apply (rule sd)
        apply (rule c2)
       apply (rule iff)
      apply (rule c4)
     apply (rule c5)
    apply (rule c6)
    done
qed

lemma fsSingle_eval:
  "readdirSync (fsSingle n body) ''/p'' = Inr [''lib'', ''x.ts'', ''y.ts'']"
  "statSync (fsSingle n body) ''/p/lib'' = Inr \<lparr>isDirectory = True, statSize = 4096\<rparr>"
  "getCodeFiles crawlerOptions (\<lambda>p. False) exampleConfig (fsSingle n body) ''/p/lib'' = [''/p/lib/index.ts'']"
  "hasSubdirectories crawlerOptions (\<lambda>p. False) (fsSingle n body) ''/p/lib'' = False"
  "readFileSync (fsSingle n body) ''/p/lib/index.ts'' = Inr body"
  "statSync (fsSingle n body) ''/p/lib/index.ts'' = Inr \<lparr>isDirectory = False, statSize = n\<rparr>"
  by (simp_all add: crawl_eval fsSingle_def exampleConfig_def path_eval)

lemma fsSingle_stats:
  "\<forall>e \<in> set [''lib'', ''x.ts'', ''y.ts'']. \<exists>s. statSync (fsSingle n body) (pathJoin ''/p'' e) = Inr s"
  by (simp add: fsSingle_def tableFs_def pathJoin_def)

lemma exampleConfig_ceiling: "maxFileSizeKb exampleConfig * 1024 = 102400"
  by (simp add: exampleConfig_limits)

theorem single_file_directory_deferred_witness:
  "readdirSync (fsSingle 102400 ''export const x = 1;'') ''/p'' = Inr [''lib'', ''x.ts'', ''y.ts''] \<and>
   getCodeFiles crawlerOptions (\<lambda>p. False) exampleConfig (fsSingle 102400 ''export const x = 1;'')
     (pathJoin ''/p'' ''lib'') = [''/p/lib/index.ts''] \<and>
   \<not> hasSubdirectories crawlerOptions (\<lambda>p. False) (fsSingle 102400 ''export const x = 1;'')
       (pathJoin ''/p'' ''lib'') \<and>
   statSync (fsSingle 102400 ''export const x = 1;'') ''/p/lib/index.ts'' =
     Inr \<lparr>isDirectory = False, statSize = 102400\<rparr> \<and>
   maxFileSizeKb exampleConfig * 1024 = 102400 \<and>
   readFileSync (fsSingle 102400 ''export const x = 1;'') ''/p/lib/index.ts'' =
     Inr ''export const x = 1;'' \<and>
   \<not> shouldDocument exampleConfig (pathJoin ''/p'' ''lib'')
       (getCodeFiles crawlerOptions (\<lambda>p. False) exampleConfig (fsSingle 102400 ''export const x = 1;'')
          (pathJoin ''/p'' ''lib''))
       (hasSubdirectories crawlerOptions (\<lambda>p. False) (fsSingle 102400 ''export const x = 1;'')
          (pathJoin ''/p'' ''lib'')) \<and>
   singleFileItem ''/p'' (pathJoin ''/p'' ''lib'') ''/p/lib/index.ts'' ''export const x = 1;'' \<in>
     set (getSubdirectoryDocs crawlerOptions (\<lambda>p. False) exampleConfig
            (fsSingle 102400 ''export const x = 1;'') ''/p'' @
          getSingleFileSubdirectories crawlerOptions (\<lambda>p. False) exampleConfig
            (fsSingle 102400 ''export const x = 1;'') ''/p'') \<and>
   pathJoin ''/p'' ''lib'' \<in>
     childPath ` set (getSingleFileSubdirectories crawlerOptions (\<lambda>p. False) exampleConfig
                       (fsSingle 102400 ''export const x = 1;'') ''/p'')"
proof -
  let ?fs = "fsSingle 102400 ''export const x = 1;''"
  let ?st = "\<lparr>isDirectory = False, statSize = 102400\<rparr>"
  have pj: "pathJoin ''/p'' ''lib'' = ''/p/lib''" by (simp add: pathJoin_def)
  have h1: "readdirSync ?fs ''/p'' = Inr [''lib'', ''x.ts'', ''y.ts'']" by (rule fsSingle_eval)
  have h3: "''lib'' \<in> set [''lib'', ''x.ts'', ''y.ts'']" by simp
  have h4: "statSync ?fs (pathJoin ''/p'' ''lib'') = Inr \<lparr>isDirectory = True, statSize = 4096\<rparr>"
    unfolding pj by (rule fsSingle_eval)
  have h5: "isDirectory \<lparr>isDirectory = True, statSize = 4096\<rparr>" by simp
  have h6: "\<not> respectGitignore crawlerOptions \<or> \<not> (\<lambda>p. False) (pathJoin ''/p'' ''lib'')" by simp
  have h7: "getCodeFiles crawlerOptions (\<lambda>p. False) exampleConfig ?fs (pathJoin ''/p'' ''lib'') =
              [''/p/lib/index.ts'']"
    unfolding pj by (rule fsSingle_eval)
  have h8: "\<not> hasSubdirectories crawlerOptions (\<lambda>p. False) ?fs (pathJoin ''/p'' ''lib'')"
    unfolding pj by (simp add: fsSingle_eval)
  have st: "statSync ?fs ''/p/lib/index.ts'' = Inr ?st" by (rule fsSingle_eval)
  have rd: "readFileSync ?fs ''/p/lib/index.ts'' = Inr ''export const x = 1;''" by (rule fsSingle_eval)
  have ok: "statSync ?fs ''/p/lib/index.ts'' = Inr ?st \<and>
            statSize ?st \<le> maxFileSizeKb exampleConfig * 1024 \<and>
            readFileSync ?fs ''/p/lib/index.ts'' = Inr ''export const x = 1;'' \<and>
            ''export const x = 1;'' \<noteq> []"
    using st rd by (simp add: exampleConfig_ceiling)
  note t = single_file_directory_deferred[OF h1 fsSingle_stats h3 h4 h5 h6 h7 h8]
  have a: "\<not> shouldDocument exampleConfig (pathJoin ''/p'' ''lib'')
       (getCodeFiles crawlerOptions (\<lambda>p. False) exampleConfig ?fs (pathJoin ''/p'' ''lib''))
       (hasSubdirectories crawlerOptions (\<lambda>p. False) ?fs (pathJoin ''/p'' ''lib''))"
    using t by blast
  have b: "singleFileItem ''/p'' (pathJoin ''/p'' ''lib'') ''/p/lib/index.ts'' ''export const x = 1;'' \<in>
     set (getSubdirectoryDocs crawlerOptions (\<lambda>p. False) exampleConfig ?fs ''/p'' @
          getSingleFileSubdirectories crawlerOptions (\<lambda>p. False) exampleConfig ?fs ''/p'')"
    using t ok by blast
  have c: "pathJoin ''/p'' ''lib'' \<in>
     childPath ` set (getSingleFileSubdirectories crawlerOptions (\<lambda>p. False) exampleConfig ?fs ''/p'')"
    using t ok by blast
  show ?thesis
    using h1 h7 h8 st rd a b c exampleConfig_ceiling by blast
qed

text \<open>
  C4 as stated fails for an empty file: the subdirectory has exactly one code file and no
  subdirectory, the file is within the size limit and its text is read, and the child
  content of the parent is empty.
\<close>

theorem empty_single_file_not_inlined:
  "getCodeFiles crawlerOptions (\<lambda>p. False) exampleConfig (fsSingle 0 []) ''/p/lib'' = [''/p/lib/index.ts''] \<and>
   \<not> hasSubdirectories crawlerOptions (\<lambda>p. False) (fsSingle 0 []) ''/p/lib'' \<and>
   statSync (fsSingle 0 []) ''/p/lib/index.ts'' = Inr \<lparr>isDirectory = False, statSize = 0\<rparr> \<and>
   readFileSync (fsSingle 0 []) ''/p/lib/index.ts'' = Inr [] \<and>
   readFileContent exampleConfig (fsSingle 0 []) ''/p/lib/index.ts'' = Some [] \<and>
   getSubdirectoryDocs crawlerOptions (\<lambda>p. False) exampleConfig (fsSingle 0 []) ''/p'' @
     getSingleFileSubdirectories crawlerOptions (\<lambda>p. False) exampleConfig (fsSingle 0 []) ''/p'' = []"
  by (simp add: fsSingle_eval readFileContent_def exampleConfig_limits)
     (simp add: crawl_eval fsSingle_def exampleConfig_def path_eval)

end
